theory Spec2Isabelle
  imports Complex_Main "HOL-Library.Extended_Nat"
begin

section \<open>Data model of the environment graph (server/graph.js)\<close>

text \<open>
  JavaScript numbers are IEEE doubles. Quantities that the program only ever counts
  (hop distances, path costs, ant counts) are modelled as naturals, with \<open>Infinity\<close>
  as the top element of \<^typ>\<open>enat\<close>; quantities that are measured (levels, timers,
  coordinates) are modelled as \<^typ>\<open>real\<close>, the idealisation of a double
  without rounding. The one place where the rounding of a double decides a discrete outcome
  is the role selection, which floors the product of the population and a ratio: there the
  numbers are the type \<open>jsnum\<close> below, with the product rounded to the nearest double.

  Objects used as dictionaries are maps from the key string to the object's own properties.
  A lookup \<open>obj[key]\<close> of a key that is not an own property goes on to
  \<open>Object.prototype\<close>: for the names that \<open>inherited\<close> lists it yields a function
  (for \<open>__proto__\<close> the prototype object), which is truthy. \<open>hasEdge\<close> and
  \<open>addEdge\<close>, which are stated for arbitrary identifiers, model this; the other
  lookups are stated for the identifiers of nodes. An assignment to the key
  \<open>__proto__\<close> replaces the prototype instead of creating an own property: a graph with
  a node added under that identifier is outside the model.
\<close>

datatype error = TypeError

definition inherited :: "string \<Rightarrow> bool" where
  "inherited k =
     (k \<in> set [''constructor'', ''__defineGetter__'', ''__defineSetter__'', ''hasOwnProperty'',
                ''__lookupGetter__'', ''__lookupSetter__'', ''isPrototypeOf'',
                ''propertyIsEnumerable'', ''toString'', ''valueOf'', ''__proto__'',
                ''toLocaleString''])"

subsection \<open>Numbers of the role selection\<close>

text \<open>A JavaScript number: \<open>NaN\<close>, the two infinities, or a finite double given by its
  real value. \<open>nearest_double\<close> rounds a real to the nearest double, ties to the even
  significand (53 bits, the unit in the last place never below \<open>2^-1074\<close>), and
  \<open>to_number\<close> is the result of an arithmetic operation whose exact value is the
  argument: the nearest double, or an infinity when that is \<open>2^1024\<close> or more in
  absolute value.\<close>

datatype jsnum = NaN | MinusInfinity | Number real | PlusInfinity

definition pow2 :: "int \<Rightarrow> real" where
  "pow2 e = (if 0 \<le> e then 2 ^ nat e else 1 / 2 ^ nat (- e))"

definition round_even :: "real \<Rightarrow> int" where
  "round_even v =
     (let f = \<lfloor>v\<rfloor>; rem = v - of_int f
      in if rem < 1 / 2 then f else if 1 / 2 < rem then f + 1 else if even f then f else f + 1)"

definition ulp_exponent :: "real \<Rightarrow> int" where
  "ulp_exponent v = max \<lfloor>log 2 \<bar>v\<bar>\<rfloor> (- 1022) - 52"

definition nearest_double :: "real \<Rightarrow> real" where
  "nearest_double v =
     (if v = 0 then 0
      else of_int (round_even (v / pow2 (ulp_exponent v))) * pow2 (ulp_exponent v))"

definition to_number :: "real \<Rightarrow> jsnum" where
  "to_number v =
     (let d = nearest_double v
      in if 2 ^ 1024 \<le> d then PlusInfinity
         else if d \<le> - (2 ^ 1024) then MinusInfinity
         else Number d)"

text \<open>The sign of a number that is not \<open>NaN\<close>, and the operations \<open>a * b\<close>,
  \<open>a - b\<close>, \<open>Math.floor(a)\<close> and \<open>a > b\<close>. (The sign of a zero is not
  modelled: none of these results depends on it but the sign of another zero.)\<close>

definition sign_of :: "jsnum \<Rightarrow> int" where
  "sign_of a =
     (case a of
        NaN \<Rightarrow> 0
      | MinusInfinity \<Rightarrow> - 1
      | Number v \<Rightarrow> (if v < 0 then - 1 else if v = 0 then 0 else 1)
      | PlusInfinity \<Rightarrow> 1)"

definition js_times :: "jsnum \<Rightarrow> jsnum \<Rightarrow> jsnum" where
  "js_times a b' =
     (if a = NaN \<or> b' = NaN then NaN
      else case (a, b') of
             (Number v, Number w) \<Rightarrow> to_number (v * w)
           | _ \<Rightarrow> (if sign_of a * sign_of b' = 0 then NaN
                   else if 0 < sign_of a * sign_of b' then PlusInfinity
                   else MinusInfinity))"

definition js_minus :: "jsnum \<Rightarrow> jsnum \<Rightarrow> jsnum" where
  "js_minus a b' =
     (case a of
        NaN \<Rightarrow> NaN
      | Number v \<Rightarrow>
          (case b' of
             NaN \<Rightarrow> NaN
           | Number w \<Rightarrow> to_number (v - w)
           | PlusInfinity \<Rightarrow> MinusInfinity
           | MinusInfinity \<Rightarrow> PlusInfinity)
      | PlusInfinity \<Rightarrow> (if b' = NaN \<or> b' = PlusInfinity then NaN else PlusInfinity)
      | MinusInfinity \<Rightarrow> (if b' = NaN \<or> b' = MinusInfinity then NaN else MinusInfinity))"

definition js_floor :: "jsnum \<Rightarrow> jsnum" where
  "js_floor a = (case a of Number v \<Rightarrow> Number (of_int \<lfloor>v\<rfloor>) | _ \<Rightarrow> a)"

definition js_greater :: "jsnum \<Rightarrow> jsnum \<Rightarrow> bool" where
  "js_greater a b' =
     (case a of
        NaN \<Rightarrow> False
      | MinusInfinity \<Rightarrow> False
      | Number v \<Rightarrow> (case b' of Number w \<Rightarrow> w < v | MinusInfinity \<Rightarrow> True | _ \<Rightarrow> False)
      | PlusInfinity \<Rightarrow> (case b' of Number w \<Rightarrow> True | MinusInfinity \<Rightarrow> True | _ \<Rightarrow> False))"

record vec3 =
  vx :: real
  vy :: real
  vz :: real

text \<open>A node object as \<open>addNode\<close> creates it. The fields \<open>resourceTimer\<close>,
  \<open>boostPlayerId\<close> and \<open>disruptPlayerId\<close> are absent until the game manager adds them.\<close>

record node =
  nid :: string
  ntype :: string
  position :: vec3
  nsize :: real
  capacity :: real
  resources :: real
  distanceToNest :: enat
  boosted :: bool
  disrupted :: bool
  boostTimer :: real
  disruptTimer :: real
  resourceTimer :: "real option"
  boostPlayerId :: "string option"
  disruptPlayerId :: "string option"

text \<open>The argument object of \<open>addNode\<close>: every property may be missing.\<close>

record nodeData =
  nd_id :: "string option"
  nd_type :: "string option"
  nd_position :: "vec3 option"
  nd_size :: "real option"
  nd_capacity :: "real option"
  nd_resources :: "real option"

text \<open>An entry of a pheromone \<open>Map\<close>: the level and, on the server, the last depositing player.\<close>

record pentry =
  level :: real
  playerId :: "string option"

record graph =
  nodes :: "string \<rightharpoonup> node"
  edges :: "string \<rightharpoonup> string list"
  pheromones :: "string \<rightharpoonup> pentry"

text \<open>\<open>a || b\<close> on an optional string and on an optional number: the empty string,
  zero and a missing property are falsy.\<close>

definition or_string :: "string option \<Rightarrow> string \<Rightarrow> string" where
  "or_string a d = (case a of None \<Rightarrow> d | Some s \<Rightarrow> if s = [] then d else s)"

definition or_number :: "real option \<Rightarrow> real \<Rightarrow> real" where
  "or_number a d = (case a of None \<Rightarrow> d | Some v \<Rightarrow> if v = 0 then d else v)"

definition or_position :: "vec3 option \<Rightarrow> vec3 \<Rightarrow> vec3" where
  "or_position a d = (case a of None \<Rightarrow> d | Some p \<Rightarrow> p)"

definition new_graph :: graph where
  "new_graph = \<lparr> nodes = Map.empty, edges = Map.empty, pheromones = Map.empty \<rparr>"

text \<open>\<open>addNode(nodeData)\<close>. The identifier that \<open>generateId()\<close> would draw from
  \<open>Math.random\<close> is the parameter \<open>gen\<close>. Returns the identifier and the new graph.\<close>

definition addNode :: "string \<Rightarrow> nodeData \<Rightarrow> graph \<Rightarrow> string \<times> graph" where
  "addNode gen nodeData g =
     (let i = or_string (nd_id nodeData) gen in
      (i, g\<lparr> nodes := (nodes g)(i \<mapsto>
                \<lparr> nid = i,
                  ntype = or_string (nd_type nodeData) ''NORMAL'',
                  position = or_position (nd_position nodeData) \<lparr> vx = 0, vy = 0, vz = 0 \<rparr>,
                  nsize = or_number (nd_size nodeData) 1,
                  capacity = or_number (nd_capacity nodeData) 10,
                  resources = or_number (nd_resources nodeData) 0,
                  distanceToNest = \<infinity>,
                  boosted = False,
                  disrupted = False,
                  boostTimer = 0,
                  disruptTimer = 0,
                  resourceTimer = None,
                  boostPlayerId = None,
                  disruptPlayerId = None \<rparr>),
              edges := (edges g)(i \<mapsto> []) \<rparr>))"

text \<open>\<open>hasEdge\<close>: \<open>this.edges[node1Id]?.includes(node2Id)\<close>. With an adjacency list
  of its own the identifier gives the result of \<open>includes\<close>. Without one, the lookup is
  \<open>undefined\<close> and so is the result, which is falsy and is modelled as \<open>False\<close>;
  unless the identifier names a property of \<open>Object.prototype\<close>: then the lookup is a
  function (or the prototype object), which has no \<open>includes\<close>, and the call is a
  \<open>TypeError\<close>.\<close>

definition hasEdge :: "graph \<Rightarrow> string \<Rightarrow> string \<Rightarrow> error + bool" where
  "hasEdge g node1Id node2Id =
     (case edges g node1Id of
        None \<Rightarrow> (if inherited node1Id then Inl TypeError else Inr False)
      | Some l \<Rightarrow> Inr (node2Id \<in> set l))"

text \<open>\<open>adjacent g a b\<close>: the adjacency list stored for \<open>a\<close> contains \<open>b\<close>.\<close>

definition adjacent :: "graph \<Rightarrow> string \<Rightarrow> string \<Rightarrow> bool" where
  "adjacent g a b = (case edges g a of None \<Rightarrow> False | Some l \<Rightarrow> b \<in> set l)"

definition getNeighbors :: "graph \<Rightarrow> string \<Rightarrow> string list" where
  "getNeighbors g nodeId = (case edges g nodeId of None \<Rightarrow> [] | Some l \<Rightarrow> l)"

definition getNode :: "graph \<Rightarrow> string \<Rightarrow> node option" where
  "getNode g nodeId = nodes g nodeId"

definition getNodePosition :: "graph \<Rightarrow> string \<Rightarrow> vec3 option" where
  "getNodePosition g nodeId = map_option position (nodes g nodeId)"

text \<open>One \<open>this.edges[a].push(b)\<close>. Without an adjacency list of its own for \<open>a\<close>
  the lookup is \<open>undefined\<close> or an inherited function, neither of which has
  \<open>push\<close>: a \<open>TypeError\<close>.\<close>

definition push_edge :: "string \<Rightarrow> string \<Rightarrow> graph \<Rightarrow> error + graph" where
  "push_edge a b g =
     (case edges g a of
        None \<Rightarrow> Inl TypeError
      | Some l \<Rightarrow> Inr (g\<lparr> edges := (edges g)(a \<mapsto> l @ [b]) \<rparr>))"

text \<open>\<open>this.nodes[id]\<close> is truthy: the identifier has a node of its own or names a
  property of \<open>Object.prototype\<close>.\<close>

definition node_truthy :: "graph \<Rightarrow> string \<Rightarrow> bool" where
  "node_truthy g nodeId = (nodes g nodeId \<noteq> None \<or> inherited nodeId)"

text \<open>\<open>addEdge(node1Id, node2Id)\<close>: the success flag and the graph after the call.\<close>

definition addEdge :: "string \<Rightarrow> string \<Rightarrow> graph \<Rightarrow> error + (bool \<times> graph)" where
  "addEdge node1Id node2Id g =
     (if \<not> node_truthy g node1Id \<or> \<not> node_truthy g node2Id then Inr (False, g)
      else case hasEdge g node1Id node2Id of
             Inl e \<Rightarrow> Inl e
           | Inr found \<Rightarrow>
               if found then Inr (True, g)
               else case push_edge node1Id node2Id g of
                      Inl e \<Rightarrow> Inl e
                    | Inr g1 \<Rightarrow> (case push_edge node2Id node1Id g1 of
                                   Inl e \<Rightarrow> Inl e
                                 | Inr g2 \<Rightarrow> Inr (True, g2)))"

section \<open>Data model of the colony (AntColony and Ant)\<close>

text \<open>An ant. \<open>aid\<close> is the draw of \<open>Math.random\<close> from which the identifier string is
  derived; \<open>apos\<close> is the field \<open>position\<close> and, with \<open>targetPosition\<close>, a three.js
  vector (the latter becomes \<open>null\<close> when \<open>getNodePosition\<close> finds no node);
  \<open>color\<close> is the hexadecimal colour value. The fields \<open>role\<close>, \<open>state\<close> and
  \<open>carrying\<close> hold strings, as in the source.\<close>

record ant =
  aid :: real
  currentNodeId :: string
  previousNodeId :: "string option"
  role :: string
  state :: string
  carrying :: "string option"
  memory :: "string list"
  memorySize :: nat
  fatigue :: real
  path :: "string list"
  apos :: vec3
  targetPosition :: "vec3 option"
  movementProgress :: real
  movementSpeed :: real
  scale :: real
  color :: nat

record spawnRatios =
  WORKER :: jsnum
  SCOUT :: jsnum
  SOLDIER :: jsnum

record params =
  maxAnts :: real
  pheromoneDecayRate :: real
  antSpawnRate :: real
  initialAnts :: real
  ratios :: spawnRatios

text \<open>The colony. \<open>rng\<close> is the stream of values that the successive calls of
  \<open>Math.random\<close> return. The colony and its ants use their graph only through
  \<open>nodes\<close>, \<open>getNeighbors\<close>, \<open>getNode\<close>, \<open>getNodePosition\<close> and
  \<open>calculateDistances\<close>; it is the \<open>Graph\<close> of server/graph.js, the one graph class of
  the sources. The fields \<open>cgraph\<close>, \<open>cpheromones\<close>, \<open>cresources\<close> and
  \<open>cparams\<close> are \<open>graph\<close>, \<open>pheromones\<close>, \<open>resources\<close> and \<open>params\<close> of
  the source.\<close>

record colony =
  cgraph :: graph
  ants :: "ant list"
  nestId :: string
  cpheromones :: "string \<rightharpoonup> pentry"
  cresources :: "string \<rightharpoonup> real"
  cparams :: params
  spawnTimer :: real
  rng :: "nat \<Rightarrow> real"

section \<open>The pheromone field (AntColony)\<close>

text \<open>The key \<open>`${fromId},${toId},${type}`\<close> of a pheromone entry.\<close>

definition pkey :: "string \<Rightarrow> string \<Rightarrow> string \<Rightarrow> string" where
  "pkey fromId toId type = fromId @ '','' @ toId @ '','' @ type"

text \<open>\<open>this.pheromones.get(key) || { level: 0 }\<close>\<close>

definition get_or_new :: "(string \<rightharpoonup> pentry) \<Rightarrow> string \<Rightarrow> pentry" where
  "get_or_new m k = (case m k of None \<Rightarrow> \<lparr> level = 0, playerId = None \<rparr> | Some e \<Rightarrow> e)"

text \<open>\<open>depositPheromone\<close>: the entry under \<open>key\<close> is read, raised and stored; only then
  is the entry under \<open>reverseKey\<close> read, so that it sees the first store when the two keys
  are the same string.\<close>

definition depositPheromone :: "string \<Rightarrow> string \<Rightarrow> string \<Rightarrow> real \<Rightarrow> colony \<Rightarrow> colony" where
  "depositPheromone fromId toId type amount c =
     (let key = pkey fromId toId type;
          reverseKey = pkey toId fromId type;
          current = get_or_new (cpheromones c) key;
          m1 = (cpheromones c)(key \<mapsto> current\<lparr> level := min (level current + amount) 5.0 \<rparr>);
          reverseCurrent = get_or_new m1 reverseKey;
          m2 = m1(reverseKey \<mapsto>
                 reverseCurrent\<lparr> level := min (level reverseCurrent + amount * 0.5) 5.0 \<rparr>)
      in c\<lparr> cpheromones := m2 \<rparr>)"

definition getPheromoneLevel :: "colony \<Rightarrow> string \<Rightarrow> string \<Rightarrow> string \<Rightarrow> real" where
  "getPheromoneLevel c fromId toId type =
     (case cpheromones c (pkey fromId toId type) of None \<Rightarrow> 0 | Some d \<Rightarrow> level d)"

text \<open>One step of the loop of \<open>updatePheromones\<close> on one entry: decay, then delete
  when negligible.\<close>

definition decay_entry :: "real \<Rightarrow> pentry \<Rightarrow> pentry option" where
  "decay_entry f d =
     (let l = level d * f in if l < 0.01 then None else Some (d\<lparr> level := l \<rparr>))"

definition decay_field :: "real \<Rightarrow> (string \<rightharpoonup> pentry) \<Rightarrow> (string \<rightharpoonup> pentry)" where
  "decay_field f m = (\<lambda>k. case m k of None \<Rightarrow> None | Some d \<Rightarrow> decay_entry f d)"

definition updatePheromones :: "real \<Rightarrow> colony \<Rightarrow> colony" where
  "updatePheromones deltaTime c =
     c\<lparr> cpheromones :=
          decay_field (1 - pheromoneDecayRate (cparams c) * deltaTime) (cpheromones c) \<rparr>"

text \<open>A history of the field: deposits and decay steps, applied from left to right.\<close>

datatype field_op = Deposit string string string real | Decay real

fun apply_field_op :: "colony \<Rightarrow> field_op \<Rightarrow> colony" where
  "apply_field_op c (Deposit fromId toId type amount) = depositPheromone fromId toId type amount c"
| "apply_field_op c (Decay deltaTime) = updatePheromones deltaTime c"

definition run_field_ops :: "field_op list \<Rightarrow> colony \<Rightarrow> colony" where
  "run_field_ops ops c = foldl apply_field_op c ops"

text \<open>The history is admissible for a decay rate: amounts are not negative and every
  decay step has \<open>0 \<le> decayRate * dt \<le> 1\<close>.\<close>

fun op_ok :: "real \<Rightarrow> field_op \<Rightarrow> bool" where
  "op_ok r (Deposit fromId toId type amount) = (0 \<le> amount)"
| "op_ok r (Decay deltaTime) = (0 \<le> r * deltaTime \<and> r * deltaTime \<le> 1)"

definition levels_bounded :: "(string \<rightharpoonup> pentry) \<Rightarrow> bool" where
  "levels_bounded m = (\<forall>k d. m k = Some d \<longrightarrow> 0 \<le> level d \<and> level d \<le> 5.0)"

section \<open>The ant (client/src/game/ant.js)\<close>

text \<open>Truthiness of an optional string (\<open>null\<close>, \<open>undefined\<close> and the empty string
  are falsy), and the property key that an optional identifier denotes when it indexes an
  object (\<open>this.nodes[null]\<close> reads the property \<open>"null"\<close>).\<close>

definition truthy :: "string option \<Rightarrow> bool" where
  "truthy v = (case v of None \<Rightarrow> False | Some s \<Rightarrow> s \<noteq> [])"

definition idkey :: "string option \<Rightarrow> string" where
  "idkey v = (case v of None \<Rightarrow> ''null'' | Some s \<Rightarrow> s)"

text \<open>\<open>Math.random()\<close>: the next value of the stream.\<close>

definition random :: "colony \<Rightarrow> real \<times> colony" where
  "random c = (rng c 0, c\<lparr> rng := (\<lambda>n. rng c (Suc n)) \<rparr>)"

text \<open>\<open>THREE.Vector3.lerpVectors(v1, v2, alpha)\<close> of three.js sets each coordinate to
  \<open>v1.x + (v2.x - v1.x) * alpha\<close>; reading a coordinate of \<open>null\<close> is a \<open>TypeError\<close>.\<close>

definition lerpVectors :: "vec3 option \<Rightarrow> vec3 option \<Rightarrow> real \<Rightarrow> error + vec3" where
  "lerpVectors v1 v2 alpha =
     (case v1 of
        None \<Rightarrow> Inl TypeError
      | Some p \<Rightarrow>
          (case v2 of
             None \<Rightarrow> Inl TypeError
           | Some q \<Rightarrow> Inr \<lparr> vx = vx p + (vx q - vx p) * alpha,
                             vy = vy p + (vy q - vy p) * alpha,
                             vz = vz p + (vz q - vz p) * alpha \<rparr>))"

text \<open>\<open>AntColony.addResource(resourceType, amount)\<close>\<close>

definition addResource :: "string \<Rightarrow> real \<Rightarrow> colony \<Rightarrow> colony" where
  "addResource resourceType amount c =
     (let cur = (case cresources c resourceType of None \<Rightarrow> 0 | Some v \<Rightarrow> v)
      in c\<lparr> cresources := (cresources c)(resourceType \<mapsto> cur + amount) \<rparr>)"

definition updateFatigue :: "real \<Rightarrow> ant \<Rightarrow> ant" where
  "updateFatigue deltaTime a =
     (let fatigueRate = (if truthy (carrying a) then 0.1 else 0.05);
          a1 = a\<lparr> fatigue := fatigue a + fatigueRate * deltaTime \<rparr>
      in if fatigue a1 > 10 \<and> state a1 \<noteq> ''RESTING'' then a1\<lparr> state := ''RESTING'' \<rparr> else a1)"

definition shouldDepositPheromone :: "ant \<Rightarrow> colony \<Rightarrow> bool \<times> colony" where
  "shouldDepositPheromone a c =
     (if state a = ''RETURNING'' then (True, c)
      else if state a = ''EXPLORING'' then (let (v, c1) = random c in (v < 0.1, c1))
      else if state a = ''FOLLOWING'' then (carrying a \<noteq> None, c)
      else (False, c))"

text \<open>\<open>Ant.depositPheromone\<close>\<close>

definition ant_depositPheromone :: "ant \<Rightarrow> colony \<Rightarrow> colony" where
  "ant_depositPheromone a c =
     (if \<not> truthy (previousNodeId a) \<or> currentNodeId a = [] then c
      else if truthy (carrying a)
        then depositPheromone (idkey (previousNodeId a)) (currentNodeId a) ''FOOD'' 0.5 c
        else depositPheromone (idkey (previousNodeId a)) (currentNodeId a) ''EXPLORATION'' 0.1 c)"

definition updateMovement :: "real \<Rightarrow> ant \<Rightarrow> colony \<Rightarrow> error + (ant \<times> colony)" where
  "updateMovement deltaTime a c =
     (let p = movementProgress a + movementSpeed a * deltaTime;
          p1 = (if p > 1 then 1 else p)
      in case lerpVectors (getNodePosition (cgraph c) (idkey (previousNodeId a)))
                (getNodePosition (cgraph c) (currentNodeId a)) p1 of
           Inl e \<Rightarrow> Inl e
         | Inr v \<Rightarrow>
             (let a1 = a\<lparr> movementProgress := p1, apos := v \<rparr>;
                  (dep, c1) = shouldDepositPheromone a1 c
              in Inr (a1, if dep then ant_depositPheromone a1 c1 else c1)))"

text \<open>The callback of \<open>calculateMovementProbabilities\<close> for one neighbour; reading
  \<open>node.type\<close> of a missing node is a \<open>TypeError\<close>.\<close>

definition movementProbability :: "ant \<Rightarrow> colony \<Rightarrow> string \<Rightarrow> error + (string \<times> real)" where
  "movementProbability a c nodeId =
     (let memoryFactor = (if nodeId \<in> set (memory a) then 0.1 else 1);
          foodPheromone = getPheromoneLevel c (currentNodeId a) nodeId ''FOOD'';
          explorationPheromone = getPheromoneLevel c (currentNodeId a) nodeId ''EXPLORATION'';
          probability =
            (if state a = ''EXPLORING'' then (explorationPheromone * 0.5 + 0.5) * memoryFactor
             else if state a = ''FOLLOWING''
               then (foodPheromone * 2 + explorationPheromone * 0.5) * memoryFactor
             else memoryFactor)
      in case getNode (cgraph c) nodeId of
           None \<Rightarrow> Inl TypeError
         | Some n \<Rightarrow>
             (let p1 = (if ntype n = ''FOOD_SOURCE'' then probability * 3 else probability);
                  p2 = (if ntype n = ''NEST'' then p1 * (if truthy (carrying a) then 3 else 0.5)
                        else p1)
              in Inr (nodeId, p2)))"

fun calculateMovementProbabilities ::
  "string list \<Rightarrow> ant \<Rightarrow> colony \<Rightarrow> error + (string \<times> real) list" where
  "calculateMovementProbabilities [] a c = Inr []"
| "calculateMovementProbabilities (nodeId # rest) a c =
     (case movementProbability a c nodeId of
        Inl e \<Rightarrow> Inl e
      | Inr p \<Rightarrow> (case calculateMovementProbabilities rest a c of
                    Inl e \<Rightarrow> Inl e
                  | Inr ps \<Rightarrow> Inr (p # ps)))"

text \<open>The selection loop of \<open>selectBasedOnProbability\<close> over the normalised list.\<close>

fun select_loop :: "real \<Rightarrow> real \<Rightarrow> (string \<times> real) list \<Rightarrow> string option" where
  "select_loop rnd cumulativeProbability [] = None"
| "select_loop rnd cumulativeProbability ((nodeId, p) # rest) =
     (let cumulativeProbability1 = cumulativeProbability + p
      in if rnd \<le> cumulativeProbability1 then Some nodeId
         else select_loop rnd cumulativeProbability1 rest)"

definition selectBasedOnProbability ::
  "(string \<times> real) list \<Rightarrow> colony \<Rightarrow> string option \<times> colony" where
  "selectBasedOnProbability probabilities c =
     (let total = foldl (\<lambda>acc item. acc + snd item) 0 probabilities
      in if total = 0 then (case probabilities of [] \<Rightarrow> None | p # ps \<Rightarrow> Some (fst p), c)
         else
           (let normalized = map (\<lambda>item. (fst item, snd item / total)) probabilities;
                (rnd, c1) = random c
            in case select_loop rnd 0 normalized of
                 Some nodeId \<Rightarrow> (Some nodeId, c1)
               | None \<Rightarrow> (if normalized = [] then None else Some (fst (last normalized)), c1)))"

definition moveToNode :: "string option \<Rightarrow> ant \<Rightarrow> colony \<Rightarrow> ant" where
  "moveToNode nodeId a c =
     (if \<not> truthy nodeId then a
      else
        (let n = idkey nodeId;
             mem = memory a @ [n];
             mem1 = (if length mem > memorySize a then tl mem else mem)
         in a\<lparr> previousNodeId := Some (currentNodeId a),
                currentNodeId := n,
                path := path a @ [n],
                memory := mem1,
                movementProgress := 0,
                targetPosition := getNodePosition (cgraph c) n \<rparr>))"

definition collect :: "node \<Rightarrow> ant \<Rightarrow> colony \<Rightarrow> ant \<times> colony" where
  "collect n a c =
     (if ntype n = ''FOOD_SOURCE'' \<and> resources n > 0 \<and> \<not> truthy (carrying a) then
        (a\<lparr> carrying := Some ''FOOD'', state := ''RETURNING'' \<rparr>,
         c\<lparr> cgraph := (cgraph c)\<lparr> nodes :=
               (nodes (cgraph c))(currentNodeId a \<mapsto> n\<lparr> resources := resources n - 1 \<rparr>) \<rparr> \<rparr>)
      else (a, c))"

definition deliver :: "node \<Rightarrow> ant \<Rightarrow> colony \<Rightarrow> ant \<times> colony" where
  "deliver n a c =
     (if ntype n = ''NEST'' \<and> truthy (carrying a) then
        (a\<lparr> carrying := None, path := [currentNodeId a], state := ''FOLLOWING'' \<rparr>,
         addResource (idkey (carrying a)) 1 c)
      else (a, c))"

text \<open>\<open>checkForResources\<close>: the pick-up at a food source (\<open>collect\<close>), then the delivery
  at the nest (\<open>deliver\<close>).\<close>

definition checkForResources :: "ant \<Rightarrow> colony \<Rightarrow> error + (ant \<times> colony)" where
  "checkForResources a c =
     (case getNode (cgraph c) (currentNodeId a) of
        None \<Rightarrow> Inl TypeError
      | Some n \<Rightarrow> (let (a1, c1) = collect n a c in Inr (deliver n a1 c1)))"

definition explore :: "ant \<Rightarrow> colony \<Rightarrow> error + (ant \<times> colony)" where
  "explore a c =
     (let neighbors = getNeighbors (cgraph c) (currentNodeId a)
      in if neighbors = [] then Inr (a\<lparr> state := ''RETURNING'' \<rparr>, c)
         else
           (case calculateMovementProbabilities neighbors a c of
              Inl e \<Rightarrow> Inl e
            | Inr probabilities \<Rightarrow>
                (let (selectedNode, c1) = selectBasedOnProbability probabilities c
                 in if \<not> truthy selectedNode then Inr (a, c1)
                    else checkForResources (moveToNode selectedNode a c1) c1)))"

text \<open>The loop of \<open>returnToNest\<close> that finds the neighbour closest to the nest.\<close>

fun closest_loop ::
  "graph \<Rightarrow> string list \<Rightarrow> string option \<times> enat \<Rightarrow> error + (string option \<times> enat)" where
  "closest_loop gr [] acc = Inr acc"
| "closest_loop gr (nodeId # rest) (bestNode, shortestDistance) =
     (case getNode gr nodeId of
        None \<Rightarrow> Inl TypeError
      | Some n \<Rightarrow>
          (if distanceToNest n < shortestDistance
           then closest_loop gr rest (Some nodeId, distanceToNest n)
           else closest_loop gr rest (bestNode, shortestDistance)))"

text \<open>\<open>xs[i]\<close> for a computed index: \<open>undefined\<close> outside the array.\<close>

definition at_index :: "string list \<Rightarrow> int \<Rightarrow> string option" where
  "at_index xs i = (if 0 \<le> i \<and> nat i < length xs then Some (xs ! nat i) else None)"

definition returnToNest :: "ant \<Rightarrow> colony \<Rightarrow> error + (ant \<times> colony)" where
  "returnToNest a c =
     (let neighbors = getNeighbors (cgraph c) (currentNodeId a)
      in case closest_loop (cgraph c) neighbors (None, \<infinity>) of
           Inl e \<Rightarrow> Inl e
         | Inr (bestNode, shortestDistance) \<Rightarrow>
             (if truthy bestNode then Inr (moveToNode bestNode a c, c)
              else if length neighbors > 0 then
                (let (rnd, c1) = random c
                 in Inr (moveToNode (at_index neighbors \<lfloor>rnd * real (length neighbors)\<rfloor>) a c1, c1))
              else Inr (a, c)))"

definition rest :: "real \<Rightarrow> ant \<Rightarrow> ant" where
  "rest deltaTime a =
     (let a1 = a\<lparr> fatigue := fatigue a - 0.2 * deltaTime \<rparr>
      in if fatigue a1 \<le> 0
         then a1\<lparr> fatigue := 0,
                   state := (if truthy (carrying a1) then ''RETURNING'' else ''EXPLORING'') \<rparr>
         else a1)"

definition followTrail :: "ant \<Rightarrow> colony \<Rightarrow> error + (ant \<times> colony)" where
  "followTrail a c =
     (let neighbors = getNeighbors (cgraph c) (currentNodeId a);
          probabilities =
            map (\<lambda>nodeId. (nodeId, (getPheromoneLevel c (currentNodeId a) nodeId ''FOOD'' + 0.1) ^ 3))
              neighbors;
          (selectedNode, c1) = selectBasedOnProbability probabilities c;
          a1 = (if truthy selectedNode then moveToNode selectedNode a c1
                else a\<lparr> state := ''EXPLORING'' \<rparr>)
      in checkForResources a1 c1)"

text \<open>\<open>Ant.update(deltaTime)\<close>\<close>

definition ant_update :: "real \<Rightarrow> ant \<Rightarrow> colony \<Rightarrow> error + (ant \<times> colony)" where
  "ant_update deltaTime a c =
     (let a1 = updateFatigue deltaTime a
      in if movementProgress a1 < 1 then updateMovement deltaTime a1 c
         else if state a1 = ''EXPLORING'' then explore a1 c
         else if state a1 = ''RETURNING'' then returnToNest a1 c
         else if state a1 = ''RESTING'' then Inr (rest deltaTime a1, c)
         else if state a1 = ''FOLLOWING'' then followTrail a1 c
         else explore a1 c)"

text \<open>The constructor of \<open>Ant\<close> followed by \<open>initRoleProperties\<close>; \<open>rnd\<close> is the draw
  for the identifier.\<close>

definition initRoleProperties :: "ant \<Rightarrow> ant" where
  "initRoleProperties a =
     (if role a = ''SCOUT''
        then a\<lparr> movementSpeed := movementSpeed a * 1.5, memorySize := 8, color := 0x00FFFF \<rparr>
      else if role a = ''WORKER'' then a\<lparr> scale := 0.9, color := 0xFFAA00 \<rparr>
      else if role a = ''SOLDIER''
        then a\<lparr> scale := 1.2, movementSpeed := movementSpeed a * 0.8, color := 0xFF5555 \<rparr>
      else a)"

definition new_Ant :: "real \<Rightarrow> string \<Rightarrow> string \<Rightarrow> ant" where
  "new_Ant rnd currentNodeId' role' =
     initRoleProperties
       \<lparr> aid = rnd, currentNodeId = currentNodeId', previousNodeId = None, role = role',
         state = ''EXPLORING'', carrying = None, memory = [currentNodeId'], memorySize = 5,
         fatigue = 0, path = [], apos = \<lparr> vx = 0, vy = 0, vz = 0 \<rparr>,
         targetPosition = Some \<lparr> vx = 0, vy = 0, vz = 0 \<rparr>, movementProgress = 0,
         movementSpeed = 0.05, scale = 1.0, color = 0xFFFFFF \<rparr>"

section \<open>The colony (AntColony)\<close>

text \<open>\<open>determineAntRole\<close>. \<open>roleCounts\<close> counts the ants of each of the three roles
  (an ant of any other role adds at most an entry whose deficit is \<open>NaN\<close>, which no
  comparison selects),
  the desired counts are \<open>Math.floor(totalAnts * ratio)\<close>, the product being a double
  (\<open>totalAnts\<close>, the length of an array, and the counts are doubles exactly),
  the deficits are \<open>desiredCounts[role] - roleCounts[role]\<close>, and the loop over the roles
  in the order \<open>WORKER\<close>, \<open>SCOUT\<close>, \<open>SOLDIER\<close> keeps the first deficit that is
  greater than the biggest so far, which starts at 0.\<close>

definition roleCount :: "colony \<Rightarrow> string \<Rightarrow> int" where
  "roleCount c rl = int (length (filter (\<lambda>a. role a = rl) (ants c)))"

definition desiredCount :: "colony \<Rightarrow> jsnum \<Rightarrow> jsnum" where
  "desiredCount c ratio = js_floor (js_times (Number (real (length (ants c)))) ratio)"

fun deficit_loop :: "(string \<times> jsnum) list \<Rightarrow> jsnum \<Rightarrow> string \<Rightarrow> string" where
  "deficit_loop [] biggestDeficit roleToSpawn = roleToSpawn"
| "deficit_loop ((rl, deficit) # rest') biggestDeficit roleToSpawn =
     (if js_greater deficit biggestDeficit then deficit_loop rest' deficit rl
      else deficit_loop rest' biggestDeficit roleToSpawn)"

definition deficit :: "colony \<Rightarrow> string \<Rightarrow> jsnum" where
  "deficit c rl =
     (if rl = ''WORKER''
        then js_minus (desiredCount c (WORKER (ratios (cparams c))))
               (Number (of_int (roleCount c ''WORKER'')))
      else if rl = ''SCOUT''
        then js_minus (desiredCount c (SCOUT (ratios (cparams c))))
               (Number (of_int (roleCount c ''SCOUT'')))
      else js_minus (desiredCount c (SOLDIER (ratios (cparams c))))
             (Number (of_int (roleCount c ''SOLDIER''))))"

definition determineAntRole :: "colony \<Rightarrow> string" where
  "determineAntRole c =
     deficit_loop
       [(''WORKER'', deficit c ''WORKER''), (''SCOUT'', deficit c ''SCOUT''),
        (''SOLDIER'', deficit c ''SOLDIER'')]
       (Number 0) ''WORKER''"

definition spawnAnt :: "colony \<Rightarrow> colony" where
  "spawnAnt c =
     (let rl = determineAntRole c;
          (rnd, c1) = random c
      in c1\<lparr> ants := ants c1 @ [new_Ant rnd (nestId c1) rl] \<rparr>)"

text \<open>\<open>updateAntSpawning\<close>. The spawn rate is never 0: the constructor stores
  \<open>options.antSpawnRate || 0.1\<close>.\<close>

definition updateAntSpawning :: "real \<Rightarrow> colony \<Rightarrow> colony" where
  "updateAntSpawning deltaTime c =
     (if real (length (ants c)) \<ge> maxAnts (cparams c) then c
      else
        (let c1 = c\<lparr> spawnTimer := spawnTimer c + deltaTime \<rparr>;
             spawnInterval = 1 / antSpawnRate (cparams c1)
         in if spawnTimer c1 \<ge> spawnInterval then spawnAnt (c1\<lparr> spawnTimer := 0 \<rparr>) else c1))"

text \<open>The loop \<open>for (const ant of this.ants) ant.update(deltaTime)\<close>: the ants are
  updated in the order of the array, each against the colony as the ants before it left it.\<close>

fun update_ants :: "real \<Rightarrow> ant list \<Rightarrow> colony \<Rightarrow> error + (ant list \<times> colony)" where
  "update_ants deltaTime [] c = Inr ([], c)"
| "update_ants deltaTime (a # as) c =
     (case ant_update deltaTime a c of
        Inl e \<Rightarrow> Inl e
      | Inr (a1, c1) \<Rightarrow>
          (case update_ants deltaTime as c1 of
             Inl e \<Rightarrow> Inl e
           | Inr (as1, c2) \<Rightarrow> Inr (a1 # as1, c2)))"

text \<open>\<open>AntColony.update(deltaTime)\<close>\<close>

definition update :: "real \<Rightarrow> colony \<Rightarrow> error + colony" where
  "update deltaTime c =
     (case update_ants deltaTime (ants c) c of
        Inl e \<Rightarrow> Inl e
      | Inr (as1, c1) \<Rightarrow>
          Inr (updatePheromones deltaTime (updateAntSpawning deltaTime (c1\<lparr> ants := as1 \<rparr>))))"

section \<open>The game manager (server/game.js)\<close>

record rgb =
  red :: real
  green :: real
  blue :: real

record player =
  pid :: string
  pname :: string
  energy :: real
  pcolor :: rgb
  score :: real

record gameManager =
  players :: "string \<rightharpoonup> player"
  ggraph :: graph

text \<open>\<open>placePheromone\<close>. Both entries are fetched before either is changed. When
  \<open>key\<close> and \<open>reverseKey\<close> are the same string and the entry exists, \<open>current\<close> and
  \<open>reverseCurrent\<close> are one object and both increments land on it; when the entry does not
  exist they are two fresh objects and the second \<open>set\<close> overwrites the first. A
  \<open>TypeError\<close> of \<open>hasEdge\<close> ends the call.\<close>

definition placePheromone ::
  "string \<Rightarrow> string \<Rightarrow> string \<Rightarrow> string \<Rightarrow> real \<Rightarrow> gameManager
   \<Rightarrow> error + (bool \<times> gameManager)" where
  "placePheromone playerId' fromNodeId toNodeId type amount gm =
     (case players gm playerId' of
        None \<Rightarrow> Inr (False, gm)
      | Some player \<Rightarrow>
          case hasEdge (ggraph gm) fromNodeId toNodeId of
            Inl e \<Rightarrow> Inl e
          | Inr found \<Rightarrow>
          if \<not> found then Inr (False, gm)
          else
            let energyCost = amount * 5 in
            if energy player < energyCost then Inr (False, gm)
            else
              let player1 = player\<lparr> energy := energy player - energyCost \<rparr>;
                  key = pkey fromNodeId toNodeId type;
                  reverseKey = pkey toNodeId fromNodeId type;
                  m = pheromones (ggraph gm);
                  m2 =
                    (case (if key = reverseKey then m key else None) of
                       Some shared \<Rightarrow>
                         let l1 = min (level shared + amount) 5.0;
                             l2 = min (l1 + amount * 0.5) 5.0
                         in m(key \<mapsto> shared\<lparr> level := l2, playerId := Some playerId' \<rparr>)
                     | None \<Rightarrow>
                         let current = get_or_new m key;
                             reverseCurrent = get_or_new m reverseKey;
                             current1 = current\<lparr> level := min (level current + amount) 5.0,
                                                 playerId := Some playerId' \<rparr>;
                             reverseCurrent1 =
                               reverseCurrent\<lparr> level := min (level reverseCurrent + amount * 0.5) 5.0,
                                                playerId := Some playerId' \<rparr>
                         in (m(key \<mapsto> current1))(reverseKey \<mapsto> reverseCurrent1))
              in Inr (True, gm\<lparr> players := (players gm)(playerId' \<mapsto> player1),
                                ggraph := (ggraph gm)\<lparr> pheromones := m2 \<rparr> \<rparr>))"

text \<open>The level the server's game state reports for an edge and type.\<close>

definition placedLevel :: "gameManager \<Rightarrow> string \<Rightarrow> string \<Rightarrow> string \<Rightarrow> real" where
  "placedLevel gm fromId toId type =
     (case pheromones (ggraph gm) (pkey fromId toId type) of None \<Rightarrow> 0 | Some d \<Rightarrow> level d)"

text \<open>The body of the loop of \<open>updateNodes\<close> for one node: the boost timer, the disrupt
  timer, and the regeneration of a food source.\<close>

definition update_boost :: "real \<Rightarrow> node \<Rightarrow> node" where
  "update_boost deltaTime n =
     (if boosted n then
        (let t = boostTimer n - deltaTime in
         if t \<le> 0 then n\<lparr> boosted := False, boostTimer := 0 \<rparr> else n\<lparr> boostTimer := t \<rparr>)
      else n)"

definition update_disrupt :: "real \<Rightarrow> node \<Rightarrow> node" where
  "update_disrupt deltaTime n =
     (if disrupted n then
        (let t = disruptTimer n - deltaTime in
         if t \<le> 0 then n\<lparr> disrupted := False, disruptTimer := 0 \<rparr> else n\<lparr> disruptTimer := t \<rparr>)
      else n)"

definition update_regeneration :: "real \<Rightarrow> node \<Rightarrow> node" where
  "update_regeneration deltaTime n =
     (if ntype n = ''FOOD_SOURCE'' \<and> resources n < capacity n then
        (let t = (case resourceTimer n of None \<Rightarrow> 0 | Some v \<Rightarrow> v) + deltaTime in
         if t \<ge> 5 then n\<lparr> resourceTimer := Some 0,
                            resources := min (resources n + 1) (capacity n) \<rparr>
         else n\<lparr> resourceTimer := Some t \<rparr>)
      else n)"

definition updateNodes :: "real \<Rightarrow> gameManager \<Rightarrow> gameManager" where
  "updateNodes deltaTime gm =
     gm\<lparr> ggraph := (ggraph gm)\<lparr> nodes :=
            (\<lambda>nodeId. map_option
               (\<lambda>n. update_regeneration deltaTime (update_disrupt deltaTime (update_boost deltaTime n)))
               (nodes (ggraph gm) nodeId)) \<rparr> \<rparr>"

text \<open>The first food source that \<open>createDefaultGraph\<close> creates, at grid position
  \<open>x = -5\<close>, \<open>z = -5\<close> (\<open>gridSize = 5\<close>, \<open>spacing = 10\<close>): both coordinates are at
  least \<open>gridSize - 1\<close> in absolute value, so the node is a \<open>FOOD_SOURCE\<close> with
  \<open>resources = 100\<close>, and it is added with \<open>size: 1, capacity: 10\<close>.\<close>

definition corner_nodeData :: nodeData where
  "corner_nodeData =
     \<lparr> nd_id = None,
       nd_type = Some ''FOOD_SOURCE'',
       nd_position = Some \<lparr> vx = -5 * 10, vy = sin (sqrt ((-5) * (-5) + (-5) * (-5))) * 2, vz = -5 * 10 \<rparr>,
       nd_size = Some 1,
       nd_capacity = Some 10,
       nd_resources = Some 100 \<rparr>"

section \<open>Path finding (Graph.findPath)\<close>

text \<open>\<open>heuristic\<close>: the Euclidean distance of the two positions; reading \<open>position\<close>
  of a missing node is a \<open>TypeError\<close>.\<close>

definition heuristic :: "graph \<Rightarrow> string \<Rightarrow> string \<Rightarrow> error + real" where
  "heuristic gr node1Id node2Id =
     (case nodes gr node1Id of
        None \<Rightarrow> Inl TypeError
      | Some n1 \<Rightarrow>
          (case nodes gr node2Id of
             None \<Rightarrow> Inl TypeError
           | Some n2 \<Rightarrow>
               (let pos1 = position n1; pos2 = position n2
                in Inr (sqrt ((vx pos1 - vx pos2)\<^sup>2 + (vy pos1 - vy pos2)\<^sup>2
                              + (vz pos1 - vz pos2)\<^sup>2)))))"

text \<open>\<open>reconstructPath\<close>: the loop \<open>while (cameFrom[current])\<close> runs as long as the
  predecessor is a truthy string; on a cyclic predecessor map it never ends, which is the
  value \<open>None\<close>.\<close>

partial_function (option) reconstruct_loop ::
  "(string \<rightharpoonup> string) \<Rightarrow> string \<Rightarrow> string list \<Rightarrow> string list option" where
  "reconstruct_loop cameFrom current pth =
     (if truthy (cameFrom current)
      then reconstruct_loop cameFrom (idkey (cameFrom current)) (idkey (cameFrom current) # pth)
      else Some pth)"

definition reconstructPath :: "(string \<rightharpoonup> string) \<Rightarrow> string \<Rightarrow> string list option" where
  "reconstructPath cameFrom current = reconstruct_loop cameFrom current [current]"

text \<open>The state of the search. A score that is \<open>undefined\<close> (or \<open>NaN\<close>) is \<open>None\<close>:
  it is falsy and every comparison with it is false.\<close>

record astar =
  openSet :: "string list"
  cameFrom :: "string \<rightharpoonup> string"
  gScore :: "string \<rightharpoonup> nat"
  fScore :: "string \<rightharpoonup> real"

definition less_score :: "'a::linorder option \<Rightarrow> 'a option \<Rightarrow> bool" where
  "less_score a b = (case a of None \<Rightarrow> False | Some v \<Rightarrow> (case b of None \<Rightarrow> False | Some w \<Rightarrow> v < w))"

text \<open>\<open>!gScore[neighborId]\<close>: a missing score and the score 0 are both falsy.\<close>

definition no_score :: "nat option \<Rightarrow> bool" where
  "no_score a = (case a of None \<Rightarrow> True | Some v \<Rightarrow> v = 0)"

text \<open>The scan for the member of the open set with the lowest \<open>fScore\<close>, from index
  \<open>i\<close> on: the current best node, its score and its index.\<close>

fun lowest_loop ::
  "(string \<rightharpoonup> real) \<Rightarrow> string list \<Rightarrow> nat \<Rightarrow> string \<times> real option \<times> nat
   \<Rightarrow> string \<times> real option \<times> nat" where
  "lowest_loop fs [] i acc = acc"
| "lowest_loop fs (nodeId # rest') i (current, lowestFScore, lowestIndex) =
     (if less_score (fs nodeId) lowestFScore
      then lowest_loop fs rest' (Suc i) (nodeId, fs nodeId, i)
      else lowest_loop fs rest' (Suc i) (current, lowestFScore, lowestIndex))"

text \<open>The loop over the neighbours of \<open>current\<close>. Reading \<open>node.disrupted\<close> of a
  missing node is a \<open>TypeError\<close>.\<close>

fun relax_loop :: "graph \<Rightarrow> string \<Rightarrow> string \<Rightarrow> string list \<Rightarrow> astar \<Rightarrow> error + astar" where
  "relax_loop gr current endNodeId [] s = Inr s"
| "relax_loop gr current endNodeId (neighborId # rest') s =
     (case nodes gr neighborId of
        None \<Rightarrow> Inl TypeError
      | Some n \<Rightarrow>
          if disrupted n then relax_loop gr current endNodeId rest' s
          else
            (let tentativeGScore = map_option Suc (gScore s current)
             in if no_score (gScore s neighborId)
                   \<or> less_score tentativeGScore (gScore s neighborId)
                then
                  (case heuristic gr neighborId endNodeId of
                     Inl e \<Rightarrow> Inl e
                   | Inr h \<Rightarrow>
                       relax_loop gr current endNodeId rest'
                         (s\<lparr> cameFrom := (cameFrom s)(neighborId \<mapsto> current),
                             gScore := (gScore s)(neighborId := tentativeGScore),
                             fScore := (fScore s)(neighborId :=
                                         map_option (\<lambda>v. real v + h) tentativeGScore),
                             openSet := (if neighborId \<in> set (openSet s) then openSet s
                                         else openSet s @ [neighborId]) \<rparr>))
                else relax_loop gr current endNodeId rest' s))"

text \<open>The main loop of \<open>findPath\<close>: \<open>None\<close> when it does not return.\<close>

partial_function (option) findPath_loop ::
  "graph \<Rightarrow> string \<Rightarrow> astar \<Rightarrow> (error + string list) option" where
  "findPath_loop gr endNodeId s =
     (case openSet s of
        [] \<Rightarrow> Some (Inr [])
      | first # rest' \<Rightarrow>
          (let sel = lowest_loop (fScore s) rest' 1 (first, fScore s first, 0);
               current = fst sel;
               lowestIndex = snd (snd sel);
               s1 = s\<lparr> openSet := take lowestIndex (openSet s) @ drop (Suc lowestIndex) (openSet s) \<rparr>
           in if current = endNodeId
              then map_option Inr (reconstructPath (cameFrom s1) current)
              else (case relax_loop gr current endNodeId (getNeighbors gr current) s1 of
                      Inl e \<Rightarrow> Some (Inl e)
                    | Inr s2 \<Rightarrow> findPath_loop gr endNodeId s2)))"

definition findPath :: "graph \<Rightarrow> string \<Rightarrow> string \<Rightarrow> (error + string list) option" where
  "findPath gr startNodeId endNodeId =
     (case heuristic gr startNodeId endNodeId of
        Inl e \<Rightarrow> Some (Inl e)
      | Inr h \<Rightarrow>
          findPath_loop gr endNodeId
            \<lparr> openSet = [startNodeId], cameFrom = Map.empty,
              gScore = [startNodeId \<mapsto> 0], fScore = [startNodeId \<mapsto> h] \<rparr>)"


text \<open>A node that the search may step on: it exists and is not disrupted.\<close>

definition passable :: "graph \<Rightarrow> string \<Rightarrow> bool" where
  "passable gr v = (case nodes gr v of None \<Rightarrow> False | Some n \<Rightarrow> \<not> disrupted n)"


section \<open>Distances to the nest (Graph.calculateDistances)\<close>

text \<open>The loop over the neighbours of the current node. \<open>visited\<close> already contains
  the current node. Reading \<open>distanceToNest\<close> of a missing neighbour is a \<open>TypeError\<close>.\<close>

fun neighbors_loop ::
  "string set \<Rightarrow> enat \<Rightarrow> string list \<Rightarrow> graph \<Rightarrow> string list \<Rightarrow> error + (graph \<times> string list)"
  where
  "neighbors_loop visited currentDistance [] gr queue = Inr (gr, queue)"
| "neighbors_loop visited currentDistance (neighborId # rest') gr queue =
     (if neighborId \<in> visited then neighbors_loop visited currentDistance rest' gr queue
      else
        (case nodes gr neighborId of
           None \<Rightarrow> Inl TypeError
         | Some neighbor \<Rightarrow>
             (let newDistance = currentDistance + 1
              in if newDistance < distanceToNest neighbor
                 then neighbors_loop visited currentDistance rest'
                        (gr\<lparr> nodes := (nodes gr)(neighborId \<mapsto>
                                neighbor\<lparr> distanceToNest := newDistance \<rparr>) \<rparr>)
                        (queue @ [neighborId])
                 else neighbors_loop visited currentDistance rest' gr queue)))"

text \<open>The \<open>while (queue.length > 0)\<close> loop: \<open>None\<close> when it does not return.\<close>

partial_function (option) distance_loop ::
  "graph \<Rightarrow> string list \<Rightarrow> string set \<Rightarrow> (error + graph) option" where
  "distance_loop gr queue visited =
     (case queue of
        [] \<Rightarrow> Some (Inr gr)
      | currentId # rest' \<Rightarrow>
          if currentId \<in> visited then distance_loop gr rest' visited
          else
            (case nodes gr currentId of
               None \<Rightarrow> Some (Inl TypeError)
             | Some cur \<Rightarrow>
                 (case neighbors_loop (insert currentId visited) (distanceToNest cur)
                         (getNeighbors gr currentId) gr rest' of
                    Inl e \<Rightarrow> Some (Inl e)
                  | Inr (gr1, queue1) \<Rightarrow> distance_loop gr1 queue1 (insert currentId visited))))"

text \<open>\<open>calculateDistances(targetNodeId)\<close>: every distance is reset to \<open>Infinity\<close>, the
  target (when it exists) is set to 0, and the loop starts from the queue \<open>[targetNodeId]\<close>
  with nothing visited.\<close>

definition reset_distances :: "graph \<Rightarrow> graph" where
  "reset_distances gr =
     gr\<lparr> nodes := (\<lambda>nodeId. map_option (\<lambda>n. n\<lparr> distanceToNest := \<infinity> \<rparr>) (nodes gr nodeId)) \<rparr>"

definition seed_target :: "string \<Rightarrow> graph \<Rightarrow> graph" where
  "seed_target targetNodeId gr =
     (case nodes gr targetNodeId of
        None \<Rightarrow> gr
      | Some n \<Rightarrow> gr\<lparr> nodes := (nodes gr)(targetNodeId \<mapsto> n\<lparr> distanceToNest := 0 \<rparr>) \<rparr>)"

definition calculateDistances :: "graph \<Rightarrow> string \<Rightarrow> (error + graph) option" where
  "calculateDistances gr targetNodeId =
     distance_loop (seed_target targetNodeId (reset_distances gr)) [targetNodeId] {}"

text \<open>The recorded distance of a node, \<open>None\<close> for a node that does not exist.\<close>

definition distance :: "graph \<Rightarrow> string \<Rightarrow> enat option" where
  "distance gr v = map_option distanceToNest (nodes gr v)"

section \<open>Hop paths\<close>

text \<open>A hop path is a non-empty sequence of existing nodes in which every node has an
  edge to the next one; its length in hops is one less than its number of nodes.
  \<open>shortest_hops gr N T L\<close>: there is a hop path from \<open>N\<close> to \<open>T\<close> of \<open>L\<close> hops and
  none of fewer hops. \<open>connected gr N T\<close>: there is a hop path from \<open>N\<close> to \<open>T\<close> at
  all.\<close>

fun hop_path :: "graph \<Rightarrow> string list \<Rightarrow> bool" where
  "hop_path gr [] = False"
| "hop_path gr [v] = (nodes gr v \<noteq> None)"
| "hop_path gr (u # v # p) = (nodes gr u \<noteq> None \<and> adjacent gr u v \<and> hop_path gr (v # p))"

definition path_between :: "graph \<Rightarrow> string \<Rightarrow> string \<Rightarrow> string list \<Rightarrow> bool" where
  "path_between gr a b' p = (hop_path gr p \<and> hd p = a \<and> last p = b')"

definition shortest_hops :: "graph \<Rightarrow> string \<Rightarrow> string \<Rightarrow> nat \<Rightarrow> bool" where
  "shortest_hops gr N T L =
     ((\<exists>p. path_between gr N T p \<and> length p = Suc L)
      \<and> (\<forall>p. path_between gr N T p \<longrightarrow> Suc L \<le> length p))"

definition connected :: "graph \<Rightarrow> string \<Rightarrow> string \<Rightarrow> bool" where
  "connected gr N T = (\<exists>p. path_between gr N T p)"

text \<open>The graphs that \<open>addNode\<close> (with a new identifier) and \<open>addEdge\<close> build: finitely
  many nodes, every edge between existing nodes and stored at both endpoints.\<close>

definition wf_graph :: "graph \<Rightarrow> bool" where
  "wf_graph gr =
     (finite (dom (nodes gr))
      \<and> (\<forall>a b'. adjacent gr a b' \<longrightarrow> nodes gr a \<noteq> None \<and> nodes gr b' \<noteq> None \<and> adjacent gr b' a))"

text \<open>The graphs that \<open>addNode\<close> and \<open>addEdge\<close> build are of this kind, and in them
  every adjacency list belongs to a node.\<close>

definition built :: "graph \<Rightarrow> bool" where
  "built gr = (wf_graph gr \<and> dom (edges gr) \<subseteq> dom (nodes gr))"

text \<open>For the proof: the recorded distance with \<open>\<infinity>\<close> for a missing node, the nodes
  that \<open>n\<close> hops along the adjacency lists lead to from the target, and the invariant of the
  loop.\<close>

definition dist_of :: "graph \<Rightarrow> string \<Rightarrow> enat" where
  "dist_of gr v = (case nodes gr v of None \<Rightarrow> \<infinity> | Some n \<Rightarrow> distanceToNest n)"

inductive hops :: "graph \<Rightarrow> string \<Rightarrow> nat \<Rightarrow> string \<Rightarrow> bool" for gr :: graph and T :: string where
  hops_target: "nodes gr T \<noteq> None \<Longrightarrow> hops gr T 0 T"
| hops_step: "hops gr T n u \<Longrightarrow> adjacent gr u v \<Longrightarrow> hops gr T (Suc n) v"

definition same_shape :: "graph \<Rightarrow> graph \<Rightarrow> bool" where
  "same_shape gr0 gr =
     (edges gr = edges gr0 \<and> pheromones gr = pheromones gr0
      \<and> (\<forall>v. (case nodes gr0 v of
                 None \<Rightarrow> nodes gr v = None
               | Some n \<Rightarrow> (\<exists>d. nodes gr v = Some (n\<lparr> distanceToNest := d \<rparr>)))))"

definition bfs_inv :: "graph \<Rightarrow> string \<Rightarrow> graph \<Rightarrow> string list \<Rightarrow> string set \<Rightarrow> bool" where
  "bfs_inv gr0 T gr queue visited =
     (same_shape gr0 gr
      \<and> dist_of gr T = 0
      \<and> (\<forall>v d. dist_of gr v = enat d \<longrightarrow> hops gr0 T d v)
      \<and> (\<forall>v. (dist_of gr v \<noteq> \<infinity>) = (v \<in> visited \<union> set queue))
      \<and> sorted (map (dist_of gr) queue)
      \<and> (\<forall>v \<in> visited. \<forall>q \<in> set queue. dist_of gr v \<le> dist_of gr q)
      \<and> (\<forall>q \<in> set queue. \<forall>q' \<in> set queue. dist_of gr q' \<le> dist_of gr q + 1)
      \<and> (\<forall>u \<in> visited. \<forall>w. adjacent gr0 u w \<longrightarrow> dist_of gr w \<le> dist_of gr u + 1))"

section \<open>Concrete graphs and colonies\<close>

text \<open>A graph with the single node \<open>a\<close>, built by \<open>addNode({id: 'a'})\<close>.\<close>

definition blank :: nodeData where
  "blank = \<lparr> nd_id = None, nd_type = None, nd_position = None, nd_size = None,
             nd_capacity = None, nd_resources = None \<rparr>"

definition graph_a :: graph where
  "graph_a = snd (addNode ''g0'' (blank\<lparr> nd_id := Some ''a'' \<rparr>) new_graph)"

text \<open>The parameters the constructor of \<open>AntColony\<close> uses when no option is given. The
  ratio literals \<open>0.7\<close>, \<open>0.2\<close> and \<open>0.1\<close> denote the nearest doubles.\<close>

definition default_params :: params where
  "default_params =
     \<lparr> maxAnts = 100, pheromoneDecayRate = 0.05, antSpawnRate = 0.1, initialAnts = 10,
       ratios = \<lparr> WORKER = to_number 0.7, SCOUT = to_number 0.2, SOLDIER = to_number 0.1 \<rparr> \<rparr>"

text \<open>A colony on the one-node graph, with no ant and an empty pheromone field.\<close>

definition colony_a :: colony where
  "colony_a =
     \<lparr> cgraph = graph_a, ants = [], nestId = ''a'', cpheromones = Map.empty,
       cresources = [''FOOD'' \<mapsto> 0], cparams = default_params, spawnTimer = 0,
       rng = (\<lambda>n. 0) \<rparr>"

text \<open>A game with one player and the one-node graph with its self-edge.\<close>

definition player_p :: player where
  "player_p = \<lparr> pid = ''p'', pname = ''Player 1'', energy = 100,
                pcolor = \<lparr> red = 1.0, green = 0.2, blue = 0.2 \<rparr>, score = 0 \<rparr>"

definition game_a :: gameManager where
  "game_a = \<lparr> players = [''p'' \<mapsto> player_p],
              ggraph = graph_a\<lparr> edges := [''a'' \<mapsto> [''a'', ''a'']] \<rparr> \<rparr>"

definition field_history :: "field_op list" where
  "field_history = [Deposit ''a'' ''b'' ''FOOD'' 3, Decay 1, Deposit ''a'' ''b'' ''FOOD'' 4, Decay 2]"

text \<open>The graph with the two nodes \<open>a\<close> and \<open>b\<close> and the edge between them, built by
  \<open>addNode\<close> and \<open>addEdge\<close>, and a game with one player on it.\<close>

definition graph_ab :: graph where
  "graph_ab =
     (case addEdge ''a'' ''b'' (snd (addNode ''g1'' (blank\<lparr> nd_id := Some ''b'' \<rparr>) graph_a)) of
        Inr (ok, g) \<Rightarrow> g
      | Inl e \<Rightarrow> new_graph)"

definition game_ab :: gameManager where
  "game_ab = \<lparr> players = [''p'' \<mapsto> player_p], ggraph = graph_ab \<rparr>"


text \<open>A colony of five workers (each as \<open>new Ant(colony, nestId, 'WORKER')\<close> creates
  it) with the default ratios.\<close>

definition colony_5w :: colony where
  "colony_5w = colony_a\<lparr> ants := replicate 5 (new_Ant 0 ''a'' ''WORKER'') \<rparr>"

text \<open>A colony of 62 workers, 17 scouts and 11 soldiers with the default ratios.\<close>

definition colony_90 :: colony where
  "colony_90 =
     colony_a\<lparr> ants := replicate 62 (new_Ant 0 ''a'' ''WORKER'')
                          @ replicate 17 (new_Ant 0 ''a'' ''SCOUT'')
                          @ replicate 11 (new_Ant 0 ''a'' ''SOLDIER'') \<rparr>"



definition ant_returning :: ant where
  "ant_returning =
     (new_Ant 0 ''a'' ''WORKER'')
       \<lparr> state := ''RETURNING'', carrying := Some ''FOOD'', previousNodeId := Some ''a'',
         currentNodeId := ''b'', movementProgress := 0.5 \<rparr>"

definition colony_t :: colony where
  "colony_t = colony_a\<lparr> cgraph := graph_ab, ants := [ant_returning] \<rparr>"

text \<open>The order of a tick as the specification words it: the decay of the field first,
  then every agent, then the spawning.\<close>

definition tick_decay_first :: "real \<Rightarrow> colony \<Rightarrow> error + colony" where
  "tick_decay_first deltaTime c =
     (let c0 = updatePheromones deltaTime c
      in case update_ants deltaTime (ants c0) c0 of
           Inl e \<Rightarrow> Inl e
         | Inr (as1, c1) \<Rightarrow> Inr (updateAntSpawning deltaTime (c1\<lparr> ants := as1 \<rparr>)))"


text \<open>An edge added by \<open>addEdge\<close>, the graph left as it is should the call fail; the line
  graph \<open>s - m - e\<close> built by \<open>addNode\<close> and \<open>addEdge\<close>, every node at the default
  position; and the game on the two-node graph after the player has disrupted \<open>a\<close>.\<close>

definition with_edge :: "string \<Rightarrow> string \<Rightarrow> graph \<Rightarrow> graph" where
  "with_edge a b' gr = (case addEdge a b' gr of Inr (ok, gr') \<Rightarrow> gr' | Inl e \<Rightarrow> gr)"

definition graph_line :: graph where
  "graph_line =
     with_edge ''m'' ''e'' (with_edge ''s'' ''m''
       (snd (addNode ''g3'' (blank\<lparr> nd_id := Some ''e'' \<rparr>)
         (snd (addNode ''g2'' (blank\<lparr> nd_id := Some ''m'' \<rparr>)
           (snd (addNode ''g1'' (blank\<lparr> nd_id := Some ''s'' \<rparr>) new_graph)))))))"



text \<open>The line graph with a fourth node \<open>i\<close> that has no edge.\<close>

definition graph_island :: graph where
  "graph_island = snd (addNode ''g4'' (blank\<lparr> nd_id := Some ''i'' \<rparr>) graph_line)"


section \<open>Verified properties\<close>

subsection \<open>Self-edges (C10)\<close>

lemma inherited_constructor: "inherited ''constructor''"
  by (simp add: inherited_def)

lemma not_inherited_b: "\<not> inherited ''b''"
  by (simp add: inherited_def)

lemma graph_a_entries:
  "nodes graph_a ''a'' \<noteq> None" "edges graph_a ''a'' = Some []"
  "nodes graph_a ''b'' = None" "edges graph_a ''constructor'' = None"
  by (simp_all add: graph_a_def addNode_def Let_def blank_def new_graph_def or_string_def)

text \<open>
  C10, as stated, fails: on the one-node graph, \<open>addEdge('a', 'a')\<close> succeeds, after it
  \<open>hasEdge('a', 'a')\<close> is true and \<open>a\<close> is among its own neighbours.
\<close>

theorem addEdge_self_counterexample:
  "\<exists>g'. addEdge ''a'' ''a'' graph_a = Inr (True, g') \<and> hasEdge graph_a ''a'' ''a'' = Inr False
        \<and> hasEdge g' ''a'' ''a'' = Inr True \<and> getNeighbors g' ''a'' = [''a'', ''a'']"
  by (simp add: graph_a_def addNode_def Let_def blank_def new_graph_def or_string_def addEdge_def
      node_truthy_def hasEdge_def push_edge_def getNeighbors_def)

text \<open>
  C10, amended: \<open>addEdge(a, a)\<close> has no self-edge guard. On a known node \<open>a\<close> (with
  its adjacency list) that has no self-edge yet it returns true and appends \<open>a\<close> twice to the
  adjacency list of \<open>a\<close>, so that \<open>hasEdge(a, a)\<close> becomes true. It leaves the graph
  unchanged when \<open>a\<close> is unknown and does not name a property of \<open>Object.prototype\<close>
  (returning false) and when the self-edge is already there (returning true). For an
  identifier that names a property of \<open>Object.prototype\<close>, such as \<open>constructor\<close>, and
  has no adjacency list, the call does not return: it throws a \<open>TypeError\<close>. So does the
  call for a known node that has no adjacency list.
\<close>

theorem addEdge_self:
  "(nodes g a = None \<and> \<not> inherited a \<longrightarrow> addEdge a a g = Inr (False, g)) \<and>
   (inherited a \<and> edges g a = None \<longrightarrow> addEdge a a g = Inl TypeError) \<and>
   (nodes g a \<noteq> None \<and> edges g a = None \<longrightarrow> addEdge a a g = Inl TypeError) \<and>
   (nodes g a \<noteq> None \<and> hasEdge g a a = Inr True \<longrightarrow> addEdge a a g = Inr (True, g)) \<and>
   (nodes g a \<noteq> None \<and> edges g a = Some l \<and> a \<notin> set l \<longrightarrow>
      (\<exists>g'. addEdge a a g = Inr (True, g') \<and> getNeighbors g' a = l @ [a, a]
            \<and> hasEdge g' a a = Inr True \<and> nodes g' = nodes g
            \<and> (\<forall>b. b \<noteq> a \<longrightarrow> edges g' b = edges g b)))"
proof -
  have c1: "addEdge a a g = Inr (False, g)" if "nodes g a = None \<and> \<not> inherited a"
    using that by (simp add: addEdge_def node_truthy_def)
  have c2: "addEdge a a g = Inl TypeError" if "inherited a \<and> edges g a = None"
    using that by (simp add: addEdge_def node_truthy_def hasEdge_def)
  have c3: "addEdge a a g = Inl TypeError" if "nodes g a \<noteq> None \<and> edges g a = None"
    using that by (simp add: addEdge_def node_truthy_def hasEdge_def push_edge_def)
  have c4: "addEdge a a g = Inr (True, g)" if "nodes g a \<noteq> None \<and> hasEdge g a a = Inr True"
    using that by (simp add: addEdge_def node_truthy_def)
  have c5: "\<exists>g'. addEdge a a g = Inr (True, g') \<and> getNeighbors g' a = l @ [a, a]
            \<and> hasEdge g' a a = Inr True \<and> nodes g' = nodes g
            \<and> (\<forall>b. b \<noteq> a \<longrightarrow> edges g' b = edges g b)"
    if "nodes g a \<noteq> None \<and> edges g a = Some l \<and> a \<notin> set l"
    using that
    by (simp add: addEdge_def node_truthy_def hasEdge_def push_edge_def getNeighbors_def)
  from c1 c2 c3 c4 c5 show ?thesis by blast
qed

theorem addEdge_self_witness:
  "nodes graph_a ''a'' \<noteq> None \<and> edges graph_a ''a'' = Some [] \<and> ''a'' \<notin> set ([]::string list)
   \<and> (\<exists>g'. addEdge ''a'' ''a'' graph_a = Inr (True, g') \<and> getNeighbors g' ''a'' = [] @ [''a'', ''a'']
            \<and> hasEdge g' ''a'' ''a'' = Inr True
            \<and> addEdge ''a'' ''a'' g' = Inr (True, g'))
   \<and> nodes graph_a ''b'' = None \<and> \<not> inherited ''b''
   \<and> addEdge ''b'' ''b'' graph_a = Inr (False, graph_a)
   \<and> inherited ''constructor'' \<and> edges graph_a ''constructor'' = None
   \<and> addEdge ''constructor'' ''constructor'' graph_a = Inl TypeError"
proof -
  note h = graph_a_entries inherited_constructor not_inherited_b
  have n: "''a'' \<notin> set ([]::string list)" by simp
  from addEdge_self [of graph_a "''a''" "[]"] h n
  obtain g' where g': "addEdge ''a'' ''a'' graph_a = Inr (True, g')"
    "getNeighbors g' ''a'' = [] @ [''a'', ''a'']" "hasEdge g' ''a'' ''a'' = Inr True"
    "nodes g' = nodes graph_a"
    by blast
  from g'(4) h(1) have k: "nodes g' ''a'' \<noteq> None" by simp
  from addEdge_self [of g' "''a''" "[]"] k g'(3)
  have s: "addEdge ''a'' ''a'' g' = Inr (True, g')" by blast
  from addEdge_self [of graph_a "''b''" "[]"] h
  have b: "addEdge ''b'' ''b'' graph_a = Inr (False, graph_a)" by blast
  from addEdge_self [of graph_a "''constructor''" "[]"] h
  have c: "addEdge ''constructor'' ''constructor'' graph_a = Inl TypeError" by blast
  from g' s b c h n show ?thesis by blast
qed

subsection \<open>The pheromone field (C4, C7)\<close>


lemma sep_prefix_unique:
  "xs @ c # r = ys @ c # r' \<Longrightarrow> c \<notin> set xs \<Longrightarrow> c \<notin> set ys \<Longrightarrow> xs = ys"
proof (induction xs arbitrary: ys)
  case Nil
  then show ?case by (cases ys) auto
next
  case (Cons a xs)
  then show ?case by (cases ys) auto
qed

lemma pkey_eq_iff:
  assumes "CHR '','' \<notin> set a" "CHR '','' \<notin> set b"
  shows "(pkey a b t = pkey b a t) = (a = b)"
proof
  assume "pkey a b t = pkey b a t"
  then have "a @ CHR '','' # (b @ '','' @ t) = b @ CHR '','' # (a @ '','' @ t)"
    by (simp add: pkey_def)
  from sep_prefix_unique [OF this assms] show "a = b" .
next
  assume "a = b" then show "pkey a b t = pkey b a t" by simp
qed

lemma decay_entry_bounded:
  assumes "0 \<le> f" "f \<le> 1" "0 \<le> level d" "level d \<le> 5" "decay_entry f d = Some d'"
  shows "0 \<le> level d' \<and> level d' \<le> 5"
proof -
  have l: "level d' = level d * f"
    using assms(5) by (auto simp: decay_entry_def Let_def split: if_splits)
  have "level d * f \<le> level d"
    using assms(2,3) by (rule mult_left_le)
  with assms(1,3,4) l show ?thesis by simp
qed

lemma levels_bounded_decay:
  assumes "0 \<le> f" "f \<le> 1" "levels_bounded m"
  shows "levels_bounded (decay_field f m)"
  unfolding levels_bounded_def
proof (intro allI impI)
  fix k d'
  assume h: "decay_field f m k = Some d'"
  then obtain d where d: "m k = Some d" "decay_entry f d = Some d'"
    by (auto simp: decay_field_def split: option.splits)
  from assms(3) d(1) have "0 \<le> level d \<and> level d \<le> 5"
    by (simp add: levels_bounded_def)
  with decay_entry_bounded [OF assms(1,2) _ _ d(2)]
  show "0 \<le> level d' \<and> level d' \<le> 5.0" by simp
qed

lemma get_or_new_bounded:
  "levels_bounded m \<Longrightarrow> 0 \<le> level (get_or_new m k) \<and> level (get_or_new m k) \<le> 5"
  by (auto simp: levels_bounded_def get_or_new_def split: option.splits)

lemma levels_bounded_raise:
  assumes "levels_bounded m" "0 \<le> a"
  shows "levels_bounded (m(k \<mapsto> (get_or_new m k)\<lparr> level := min (level (get_or_new m k) + a) 5.0 \<rparr>))"
  using get_or_new_bounded [OF assms(1), of k] assms
  by (auto simp: levels_bounded_def)

lemma levels_bounded_deposit:
  assumes "0 \<le> amount" "levels_bounded (cpheromones c)"
  shows "levels_bounded (cpheromones (depositPheromone fromId toId type amount c))"
proof -
  have h: "0 \<le> amount * 0.5" using assms(1) by simp
  show ?thesis
    unfolding depositPheromone_def Let_def
    using levels_bounded_raise [OF levels_bounded_raise [OF assms(2,1)] h]
    by simp
qed

lemma cparams_depositPheromone:
  "cparams (depositPheromone fromId toId type amount c) = cparams c"
  by (simp add: depositPheromone_def Let_def)

lemma apply_field_op_bounded:
  assumes "op_ok (pheromoneDecayRate (cparams c)) fo" "levels_bounded (cpheromones c)"
  shows "levels_bounded (cpheromones (apply_field_op c fo)) \<and> cparams (apply_field_op c fo) = cparams c"
proof (cases fo)
  case (Deposit a b t amount)
  with assms show ?thesis
    by (simp add: levels_bounded_deposit cparams_depositPheromone)
next
  case (Decay deltaTime)
  with assms show ?thesis
    by (simp add: levels_bounded_decay updatePheromones_def)
qed

lemma run_field_ops_bounded:
  "\<forall>fo \<in> set ops. op_ok (pheromoneDecayRate (cparams c)) fo \<Longrightarrow> levels_bounded (cpheromones c) \<Longrightarrow>
   levels_bounded (cpheromones (foldl apply_field_op c ops))"
proof (induction ops arbitrary: c)
  case Nil
  then show ?case by simp
next
  case (Cons fo ops)
  have "levels_bounded (cpheromones (apply_field_op c fo)) \<and> cparams (apply_field_op c fo) = cparams c"
    using Cons.prems by (intro apply_field_op_bounded) auto
  with Cons.prems(1) have "levels_bounded (cpheromones (foldl apply_field_op (apply_field_op c fo) ops))"
    by (intro Cons.IH) auto
  then show ?case by simp
qed



lemma deposit_distinct:
  assumes "pkey fromId toId type \<noteq> pkey toId fromId type"
  shows "getPheromoneLevel (depositPheromone fromId toId type amount c) fromId toId type
           = min (getPheromoneLevel c fromId toId type + amount) 5.0
       \<and> getPheromoneLevel (depositPheromone fromId toId type amount c) toId fromId type
           = min (getPheromoneLevel c toId fromId type + amount * 0.5) 5.0"
  using assms
  by (auto simp: getPheromoneLevel_def depositPheromone_def Let_def get_or_new_def
      split: option.splits)

lemma deposit_same:
  assumes "pkey fromId toId type = pkey toId fromId type"
  shows "getPheromoneLevel (depositPheromone fromId toId type amount c) fromId toId type
           = min (min (getPheromoneLevel c fromId toId type + amount) 5.0 + amount * 0.5) 5.0"
  using assms
  by (auto simp: getPheromoneLevel_def depositPheromone_def Let_def get_or_new_def
      split: option.splits)

lemma deposit_others:
  "k \<noteq> pkey fromId toId type \<Longrightarrow> k \<noteq> pkey toId fromId type \<Longrightarrow>
   cpheromones (depositPheromone fromId toId type amount c) k = cpheromones c k"
  by (simp add: depositPheromone_def Let_def)

lemma place_distinct:
  assumes "players gm p = Some pl" "hasEdge (ggraph gm) fromId toId = Inr True" "amount * 5 \<le> energy pl"
    and "pkey fromId toId type \<noteq> pkey toId fromId type"
  shows "\<exists>gm'. placePheromone p fromId toId type amount gm = Inr (True, gm')
       \<and> placedLevel gm' fromId toId type = min (placedLevel gm fromId toId type + amount) 5.0
       \<and> placedLevel gm' toId fromId type = min (placedLevel gm toId fromId type + amount * 0.5) 5.0
       \<and> (\<forall>k. k \<noteq> pkey fromId toId type \<and> k \<noteq> pkey toId fromId type \<longrightarrow>
             pheromones (ggraph gm') k = pheromones (ggraph gm) k)"
  using assms
  by (auto simp: placePheromone_def placedLevel_def Let_def get_or_new_def split: option.splits)

text \<open>
  C7, as stated, fails when the two keys coincide, as they do for \<open>from = to\<close>: a deposit
  of 1 on \<open>(a, a, FOOD)\<close> into an empty field leaves the level 1.5, not
  \<open>min (0 + 1) 5 = 1\<close>; and the server's \<open>placePheromone\<close> on the self-edge of \<open>a\<close>
  leaves 0.5.
\<close>

theorem deposit_counterexample:
  "getPheromoneLevel colony_a ''a'' ''a'' ''FOOD'' = 0
   \<and> getPheromoneLevel (depositPheromone ''a'' ''a'' ''FOOD'' 1 colony_a) ''a'' ''a'' ''FOOD'' = 1.5
   \<and> getPheromoneLevel (depositPheromone ''a'' ''a'' ''FOOD'' 1 colony_a) ''a'' ''a'' ''FOOD''
       \<noteq> min (getPheromoneLevel colony_a ''a'' ''a'' ''FOOD'' + 1) 5.0
   \<and> (\<exists>gm'. placePheromone ''p'' ''a'' ''a'' ''FOOD'' 1 game_a = Inr (True, gm')
          \<and> placedLevel gm' ''a'' ''a'' ''FOOD'' = 0.5)"
  by (simp add: getPheromoneLevel_def depositPheromone_def Let_def get_or_new_def colony_a_def
      pkey_def placePheromone_def placedLevel_def game_a_def player_p_def hasEdge_def
      graph_a_def addNode_def blank_def new_graph_def or_string_def)

text \<open>
  C7, amended: for every deposit call whose key \<open>from,to,type\<close> and reverse key
  \<open>to,from,type\<close> are different strings (for identifiers without a comma: whenever
  \<open>from \<noteq> to\<close>), the \<open>(from, to, type)\<close> level becomes \<open>min (old + amount) 5\<close>, the
  \<open>(to, from, type)\<close> level becomes \<open>min (oldReverse + amount * 0.5) 5\<close>, and no other
  entry changes; the same holds for a successful \<open>placePheromone\<close> of the server. When
  the two keys are the same string, \<open>depositPheromone\<close> applies both increments to the one
  entry: \<open>min (min (old + amount) 5 + amount * 0.5) 5\<close>.
\<close>

theorem deposit_levels:
  "(pkey fromId toId type \<noteq> pkey toId fromId type \<longrightarrow>
      getPheromoneLevel (depositPheromone fromId toId type amount c) fromId toId type
        = min (getPheromoneLevel c fromId toId type + amount) 5.0
      \<and> getPheromoneLevel (depositPheromone fromId toId type amount c) toId fromId type
        = min (getPheromoneLevel c toId fromId type + amount * 0.5) 5.0)
   \<and> (pkey fromId toId type = pkey toId fromId type \<longrightarrow>
      getPheromoneLevel (depositPheromone fromId toId type amount c) fromId toId type
        = min (min (getPheromoneLevel c fromId toId type + amount) 5.0 + amount * 0.5) 5.0)
   \<and> (\<forall>k. k \<noteq> pkey fromId toId type \<and> k \<noteq> pkey toId fromId type \<longrightarrow>
         cpheromones (depositPheromone fromId toId type amount c) k = cpheromones c k)
   \<and> (CHR '','' \<notin> set fromId \<and> CHR '','' \<notin> set toId \<longrightarrow>
         (pkey fromId toId type = pkey toId fromId type) = (fromId = toId))
   \<and> (players gm p = Some pl \<and> hasEdge (ggraph gm) fromId toId = Inr True \<and> amount * 5 \<le> energy pl
        \<and> pkey fromId toId type \<noteq> pkey toId fromId type \<longrightarrow>
        (\<exists>gm'. placePheromone p fromId toId type amount gm = Inr (True, gm')
          \<and> placedLevel gm' fromId toId type = min (placedLevel gm fromId toId type + amount) 5.0
          \<and> placedLevel gm' toId fromId type = min (placedLevel gm toId fromId type + amount * 0.5) 5.0
          \<and> (\<forall>k. k \<noteq> pkey fromId toId type \<and> k \<noteq> pkey toId fromId type \<longrightarrow>
                pheromones (ggraph gm') k = pheromones (ggraph gm) k)))"
  using deposit_distinct [of fromId toId type amount c] deposit_same [of fromId toId type amount c]
    deposit_others [of _ fromId toId type amount c] pkey_eq_iff [of fromId toId type]
    place_distinct [of gm p pl fromId toId amount type]
  by blast

theorem deposit_levels_witness:
  "pkey ''a'' ''b'' ''FOOD'' \<noteq> pkey ''b'' ''a'' ''FOOD''
   \<and> getPheromoneLevel (depositPheromone ''a'' ''b'' ''FOOD'' 7 colony_a) ''a'' ''b'' ''FOOD'' = 5
   \<and> getPheromoneLevel (depositPheromone ''a'' ''b'' ''FOOD'' 7 colony_a) ''b'' ''a'' ''FOOD'' = 3.5
   \<and> players game_ab ''p'' = Some player_p \<and> hasEdge (ggraph game_ab) ''a'' ''b'' = Inr True
   \<and> (7::real) * 5 \<le> energy player_p
   \<and> (\<exists>gm'. placePheromone ''p'' ''a'' ''b'' ''FOOD'' 7 game_ab = Inr (True, gm')
          \<and> placedLevel gm' ''a'' ''b'' ''FOOD'' = 5 \<and> placedLevel gm' ''b'' ''a'' ''FOOD'' = 3.5)"
proof -
  have k: "pkey ''a'' ''b'' ''FOOD'' \<noteq> pkey ''b'' ''a'' ''FOOD''"
    by (simp add: pkey_def)
  have z: "getPheromoneLevel colony_a ''a'' ''b'' ''FOOD'' = 0"
    "getPheromoneLevel colony_a ''b'' ''a'' ''FOOD'' = 0"
    by (simp_all add: getPheromoneLevel_def colony_a_def)
  have g: "players game_ab ''p'' = Some player_p" "hasEdge (ggraph game_ab) ''a'' ''b'' = Inr True"
    "(7::real) * 5 \<le> energy player_p"
    by (simp_all add: game_ab_def graph_ab_def graph_a_def addNode_def addEdge_def push_edge_def
        hasEdge_def node_truthy_def Let_def blank_def new_graph_def or_string_def player_p_def)
  have p: "placedLevel game_ab ''a'' ''b'' ''FOOD'' = 0" "placedLevel game_ab ''b'' ''a'' ''FOOD'' = 0"
    by (simp_all add: placedLevel_def game_ab_def graph_ab_def graph_a_def addNode_def addEdge_def
        push_edge_def hasEdge_def node_truthy_def Let_def blank_def new_graph_def or_string_def)
  from deposit_levels [of "''a''" "''b''" "''FOOD''" 7 colony_a game_ab "''p''" player_p] k z g p
  show ?thesis by auto
qed

text \<open>
  C4: starting from a field whose levels are within \<open>[0, 5]\<close> (the empty field of a new
  colony is one), after every sequence of deposits with non-negative amounts and of decay
  steps with \<open>0 \<le> decayRate * dt \<le> 1\<close>, every stored level is within \<open>[0, 5]\<close>, and so
  is every level that \<open>getPheromoneLevel\<close> reports.
\<close>

theorem pheromone_levels_bounded:
  assumes "list_all (op_ok (pheromoneDecayRate (cparams c))) ops"
    and "levels_bounded (cpheromones c)"
  shows "levels_bounded (cpheromones (run_field_ops ops c))
       \<and> 0 \<le> getPheromoneLevel (run_field_ops ops c) fromId toId type
       \<and> getPheromoneLevel (run_field_ops ops c) fromId toId type \<le> 5.0"
proof -
  have "\<forall>fo \<in> set ops. op_ok (pheromoneDecayRate (cparams c)) fo"
    using assms(1) by (simp add: list_all_iff)
  then have b: "levels_bounded (cpheromones (run_field_ops ops c))"
    unfolding run_field_ops_def using assms(2) by (rule run_field_ops_bounded)
  then show ?thesis
    by (auto simp: getPheromoneLevel_def levels_bounded_def split: option.splits)
qed

theorem pheromone_levels_bounded_witness:
  "list_all (op_ok (pheromoneDecayRate (cparams colony_a))) field_history
   \<and> levels_bounded (cpheromones colony_a)
   \<and> levels_bounded (cpheromones (run_field_ops field_history colony_a))
   \<and> getPheromoneLevel (run_field_ops field_history colony_a) ''a'' ''b'' ''FOOD'' \<le> 5.0
   \<and> getPheromoneLevel (run_field_ops [Deposit ''a'' ''b'' ''FOOD'' 3, Decay 1] colony_a)
        ''a'' ''b'' ''FOOD'' = 2.85"
proof -
  have h1: "list_all (op_ok (pheromoneDecayRate (cparams colony_a))) field_history"
    by (simp add: field_history_def colony_a_def default_params_def)
  have h2: "levels_bounded (cpheromones colony_a)"
    by (simp add: levels_bounded_def colony_a_def)
  have v: "getPheromoneLevel (run_field_ops [Deposit ''a'' ''b'' ''FOOD'' 3, Decay 1] colony_a)
        ''a'' ''b'' ''FOOD'' = 2.85"
    by (simp add: run_field_ops_def depositPheromone_def updatePheromones_def Let_def
        get_or_new_def decay_field_def decay_entry_def getPheromoneLevel_def pkey_def
        colony_a_def default_params_def)
  from pheromone_levels_bounded [OF h1 h2, of "''a''" "''b''" "''FOOD''"] h1 h2 v
  show ?thesis by simp
qed


subsection \<open>Resources and capacity (C6)\<close>

lemma update_boost_resources:
  "resources (update_boost deltaTime n) = resources n
   \<and> capacity (update_boost deltaTime n) = capacity n
   \<and> ntype (update_boost deltaTime n) = ntype n"
  by (simp add: update_boost_def Let_def)

lemma update_disrupt_resources:
  "resources (update_disrupt deltaTime n) = resources n
   \<and> capacity (update_disrupt deltaTime n) = capacity n
   \<and> ntype (update_disrupt deltaTime n) = ntype n"
  by (simp add: update_disrupt_def Let_def)

text \<open>The regeneration of \<open>updateNodes\<close> respects the capacity: it never raises the
  resources of a node above it, and it leaves a node that is already above it as it is.\<close>

lemma update_regeneration_bound:
  "resources n \<le> capacity n \<Longrightarrow>
   resources (update_regeneration deltaTime n) \<le> capacity (update_regeneration deltaTime n)"
  by (simp add: update_regeneration_def Let_def)

lemma update_regeneration_above:
  "capacity n \<le> resources n \<Longrightarrow>
   resources (update_regeneration deltaTime n) = resources n
   \<and> capacity (update_regeneration deltaTime n) = capacity n"
  by (simp add: update_regeneration_def Let_def)

text \<open>
  C6 fails on the code right after world setup: \<open>createDefaultGraph\<close> adds its corner
  food sources with \<open>capacity: 10\<close> and \<open>resources: 100\<close>, \<open>addNode\<close> stores both as
  given, and no tick of \<open>updateNodes\<close> brings the resources back under the capacity.
\<close>

theorem corner_food_source_above_capacity:
  "\<exists>n. nodes (snd (addNode ''n1'' corner_nodeData new_graph))
           (fst (addNode ''n1'' corner_nodeData new_graph)) = Some n
       \<and> ntype n = ''FOOD_SOURCE'' \<and> resources n = 100 \<and> capacity n = 10
       \<and> capacity n < resources n
       \<and> (\<forall>deltaTime. \<exists>n'.
             nodes (ggraph (updateNodes deltaTime
                \<lparr> players = Map.empty, ggraph = snd (addNode ''n1'' corner_nodeData new_graph) \<rparr>))
               (fst (addNode ''n1'' corner_nodeData new_graph)) = Some n'
             \<and> resources n' = 100 \<and> capacity n' = 10)"
  by (simp add: addNode_def Let_def corner_nodeData_def new_graph_def or_string_def
      or_number_def or_position_def updateNodes_def update_regeneration_def
      update_boost_def update_disrupt_def)


subsection \<open>Role selection (C8)\<close>

lemma pow2_powr: "pow2 e = 2 powr (of_int e)"
  by (simp add: pow2_def powr_int)

lemma pow2_pos: "0 < pow2 e"
  by (simp add: pow2_powr)

lemma ulp_exponent_binade:
  assumes "pow2 e \<le> \<bar>v\<bar>" "\<bar>v\<bar> < pow2 (e + 1)" "- 1022 \<le> e"
  shows "ulp_exponent v = e - 52"
proof -
  have p: "0 < \<bar>v\<bar>" using assms(1) pow2_pos [of e] by linarith
  have "\<lfloor>log 2 \<bar>v\<bar>\<rfloor> = e"
    using assms(1,2) p by (simp add: floor_log_eq_powr_iff pow2_powr)
  with assms(3) show ?thesis by (simp add: ulp_exponent_def)
qed

lemma nearest_double_binade:
  assumes "pow2 e \<le> \<bar>v\<bar>" "\<bar>v\<bar> < pow2 (e + 1)" "- 1022 \<le> e"
  shows "nearest_double v = of_int (round_even (v / pow2 (e - 52))) * pow2 (e - 52)"
proof -
  have "v \<noteq> 0" using assms(1) pow2_pos [of e] by auto
  with ulp_exponent_binade [OF assms] show ?thesis by (simp add: nearest_double_def)
qed

lemma to_number_finite:
  assumes "nearest_double v = d" "- (2 ^ 1024) < d" "d < 2 ^ 1024"
  shows "to_number v = Number d"
  using assms by (simp add: to_number_def Let_def)

text \<open>The doubles that the literals \<open>0.7\<close>, \<open>0.2\<close> and \<open>0.1\<close> denote.\<close>

lemma nearest_double_07: "nearest_double 0.7 = 3152519739159347 / 2 ^ 52"
  by (subst nearest_double_binade [where e = "- 1"]) (simp_all add: pow2_def round_even_def Let_def)

lemma nearest_double_02: "nearest_double 0.2 = 3602879701896397 / 2 ^ 54"
  by (subst nearest_double_binade [where e = "- 3"]) (simp_all add: pow2_def round_even_def Let_def)

lemma nearest_double_01: "nearest_double 0.1 = 3602879701896397 / 2 ^ 55"
  by (subst nearest_double_binade [where e = "- 4"]) (simp_all add: pow2_def round_even_def Let_def)

lemma default_ratios:
  "to_number 0.7 = Number (3152519739159347 / 2 ^ 52)"
  "to_number 0.2 = Number (3602879701896397 / 2 ^ 54)"
  "to_number 0.1 = Number (3602879701896397 / 2 ^ 55)"
  by (rule to_number_finite [OF nearest_double_07], simp, simp)
    (rule to_number_finite [OF nearest_double_02], simp, simp,
     rule to_number_finite [OF nearest_double_01], simp, simp)

text \<open>Differences of the small counts are exact.\<close>

lemma nearest_double_small:
  "nearest_double 1 = 1" "nearest_double (- 2) = - 2"
  by (subst nearest_double_binade [where e = 0], simp_all add: pow2_def round_even_def Let_def)
    (subst nearest_double_binade [where e = 1], simp_all add: pow2_def round_even_def Let_def)

lemma to_number_small:
  "to_number 0 = Number 0" "to_number 1 = Number 1" "to_number (- 2) = Number (- 2)"
proof -
  show "to_number 0 = Number 0" by (simp add: to_number_def nearest_double_def)
  show "to_number 1 = Number 1"
    by (rule to_number_finite [OF nearest_double_small(1)]) simp_all
  show "to_number (- 2) = Number (- 2)"
    by (rule to_number_finite [OF nearest_double_small(2)]) simp_all
qed

text \<open>The products of a population of 5 and of a population of 90 with the default ratios,
  rounded to the nearest double.\<close>

lemma products_5:
  "nearest_double (5 * (3152519739159347 / 2 ^ 52)) = 3.5"
  "nearest_double (5 * (3602879701896397 / 2 ^ 54)) = 1"
  "nearest_double (5 * (3602879701896397 / 2 ^ 55)) = 0.5"
proof -
  show "nearest_double (5 * (3152519739159347 / 2 ^ 52)) = 3.5"
    by (subst nearest_double_binade [where e = 1]) (simp_all add: pow2_def round_even_def Let_def)
  show "nearest_double (5 * (3602879701896397 / 2 ^ 54)) = 1"
    by (subst nearest_double_binade [where e = 0]) (simp_all add: pow2_def round_even_def Let_def)
  show "nearest_double (5 * (3602879701896397 / 2 ^ 55)) = 0.5"
    by (subst nearest_double_binade [where e = "- 1"]) (simp_all add: pow2_def round_even_def Let_def)
qed

lemma products_90:
  "nearest_double (90 * (3152519739159347 / 2 ^ 52)) = 8866461766385663 / 2 ^ 47"
  "nearest_double (90 * (3602879701896397 / 2 ^ 54)) = 18"
  "nearest_double (90 * (3602879701896397 / 2 ^ 55)) = 9"
proof -
  show "nearest_double (90 * (3152519739159347 / 2 ^ 52)) = 8866461766385663 / 2 ^ 47"
    by (subst nearest_double_binade [where e = 5]) (simp_all add: pow2_def round_even_def Let_def)
  show "nearest_double (90 * (3602879701896397 / 2 ^ 54)) = 18"
    by (subst nearest_double_binade [where e = 4]) (simp_all add: pow2_def round_even_def Let_def)
  show "nearest_double (90 * (3602879701896397 / 2 ^ 55)) = 9"
    by (subst nearest_double_binade [where e = 3]) (simp_all add: pow2_def round_even_def Let_def)
qed

lemma js_times_Number: "js_times (Number v) (Number w) = to_number (v * w)"
  by (simp add: js_times_def)

lemma times_5:
  "js_times (Number 5) (to_number 0.7) = Number 3.5"
  "js_times (Number 5) (to_number 0.2) = Number 1"
  "js_times (Number 5) (to_number 0.1) = Number 0.5"
proof -
  show "js_times (Number 5) (to_number 0.7) = Number 3.5"
    unfolding default_ratios js_times_Number
    by (rule to_number_finite [OF products_5(1)]) simp_all
  show "js_times (Number 5) (to_number 0.2) = Number 1"
    unfolding default_ratios js_times_Number
    by (rule to_number_finite [OF products_5(2)]) simp_all
  show "js_times (Number 5) (to_number 0.1) = Number 0.5"
    unfolding default_ratios js_times_Number
    by (rule to_number_finite [OF products_5(3)]) simp_all
qed

lemma desired_5:
  "js_floor (js_times (Number 5) (to_number 0.7)) = Number 3"
  "js_floor (js_times (Number 5) (to_number 0.2)) = Number 1"
  "js_floor (js_times (Number 5) (to_number 0.1)) = Number 0"
  unfolding times_5 js_floor_def by simp_all

lemma times_90:
  "js_times (Number 90) (to_number 0.7) = Number (8866461766385663 / 2 ^ 47)"
  "js_times (Number 90) (to_number 0.2) = Number 18"
  "js_times (Number 90) (to_number 0.1) = Number 9"
proof -
  show "js_times (Number 90) (to_number 0.7) = Number (8866461766385663 / 2 ^ 47)"
    unfolding default_ratios js_times_Number
    by (rule to_number_finite [OF products_90(1)]) simp_all
  show "js_times (Number 90) (to_number 0.2) = Number 18"
    unfolding default_ratios js_times_Number
    by (rule to_number_finite [OF products_90(2)]) simp_all
  show "js_times (Number 90) (to_number 0.1) = Number 9"
    unfolding default_ratios js_times_Number
    by (rule to_number_finite [OF products_90(3)]) simp_all
qed

lemma desired_90:
  "js_floor (js_times (Number 90) (to_number 0.7)) = Number 62"
  "js_floor (js_times (Number 90) (to_number 0.2)) = Number 18"
  "js_floor (js_times (Number 90) (to_number 0.1)) = Number 9"
proof -
  have "\<lfloor>8866461766385663 / 2 ^ 47 :: real\<rfloor> = 62"
    by (simp add: floor_eq_iff)
  then show "js_floor (js_times (Number 90) (to_number 0.7)) = Number 62"
    unfolding times_90 js_floor_def by simp
  show "js_floor (js_times (Number 90) (to_number 0.2)) = Number 18"
    unfolding times_90 js_floor_def by simp
  show "js_floor (js_times (Number 90) (to_number 0.1)) = Number 9"
    unfolding times_90 js_floor_def by simp
qed

lemma js_minus_small:
  "js_minus (Number 3) (Number 5) = Number (- 2)"
  "js_minus (Number 1) (Number 0) = Number 1"
  "js_minus (Number 0) (Number 0) = Number 0"
  "js_minus (Number 62) (Number 62) = Number 0"
  "js_minus (Number 18) (Number 17) = Number 1"
  "js_minus (Number 9) (Number 11) = Number (- 2)"
  by (simp_all add: js_minus_def to_number_small)

text \<open>The loop over the three roles, in closed form, and what it selects.\<close>

lemma deficit_loop_three:
  "deficit_loop [(''WORKER'', d1), (''SCOUT'', d2), (''SOLDIER'', d3)] (Number 0) ''WORKER'' =
     (let b1 = (if js_greater d1 (Number 0) then d1 else Number 0);
          b2 = (if js_greater d2 b1 then d2 else b1);
          r2 = (if js_greater d2 b1 then ''SCOUT'' else ''WORKER'')
      in if js_greater d3 b2 then ''SOLDIER'' else r2)"
  by (simp add: Let_def)

lemma deficit_loop_selects:
  fixes d1 d2 d3 :: jsnum
  defines "r \<equiv> deficit_loop [(''WORKER'', d1), (''SCOUT'', d2), (''SOLDIER'', d3)] (Number 0) ''WORKER''"
  defines "dr \<equiv> (if r = ''WORKER'' then d1 else if r = ''SCOUT'' then d2 else d3)"
  shows "(\<not> js_greater d1 (Number 0) \<and> \<not> js_greater d2 (Number 0) \<and> \<not> js_greater d3 (Number 0)
            \<longrightarrow> r = ''WORKER'')
       \<and> (js_greater d1 (Number 0) \<or> js_greater d2 (Number 0) \<or> js_greater d3 (Number 0)
            \<longrightarrow> js_greater dr (Number 0)
                \<and> \<not> js_greater d1 dr \<and> \<not> js_greater d2 dr \<and> \<not> js_greater d3 dr)
       \<and> r \<in> {''WORKER'', ''SCOUT'', ''SOLDIER''}
       \<and> (r = ''SCOUT'' \<longrightarrow> js_greater d2 d1 \<or> d1 = NaN)
       \<and> (r = ''SOLDIER'' \<longrightarrow> (js_greater d3 d1 \<or> d1 = NaN) \<and> (js_greater d3 d2 \<or> d2 = NaN))"
  unfolding dr_def r_def deficit_loop_three Let_def
  by (cases d1; cases d2; cases d3; simp add: js_greater_def)

lemma roleCount_blocks:
  assumes "map role (ants c) = replicate n ''WORKER'' @ replicate m ''SCOUT'' @ replicate k ''SOLDIER''"
  shows "roleCount c ''WORKER'' = int n \<and> roleCount c ''SCOUT'' = int m
       \<and> roleCount c ''SOLDIER'' = int k \<and> length (ants c) = n + m + k"
proof -
  have f: "length (filter (\<lambda>a. role a = rl) (ants c)) = length (filter (\<lambda>s. s = rl) (map role (ants c)))"
    for rl
    by (simp add: filter_map comp_def)
  have "length (map role (ants c)) = n + m + k"
    unfolding assms by simp
  then have l: "length (ants c) = n + m + k" by simp
  show ?thesis
    unfolding roleCount_def f assms using l by simp
qed

lemma deficit_values:
  assumes "ratios (cparams c) = \<lparr> WORKER = rw, SCOUT = rs, SOLDIER = ro \<rparr>"
    and "real (length (ants c)) = n"
    and "real_of_int (roleCount c ''WORKER'') = cw" "real_of_int (roleCount c ''SCOUT'') = cs"
      "real_of_int (roleCount c ''SOLDIER'') = co"
  shows "desiredCount c (WORKER (ratios (cparams c))) = js_floor (js_times (Number n) rw)"
    "desiredCount c (SCOUT (ratios (cparams c))) = js_floor (js_times (Number n) rs)"
    "desiredCount c (SOLDIER (ratios (cparams c))) = js_floor (js_times (Number n) ro)"
    "deficit c ''WORKER'' = js_minus (js_floor (js_times (Number n) rw)) (Number cw)"
    "deficit c ''SCOUT'' = js_minus (js_floor (js_times (Number n) rs)) (Number cs)"
    "deficit c ''SOLDIER'' = js_minus (js_floor (js_times (Number n) ro)) (Number co)"
  using assms by (simp_all add: deficit_def desiredCount_def)

lemma roleCount_all_workers:
  assumes "map role (ants c) = replicate n ''WORKER''"
  shows "roleCount c ''WORKER'' = int n \<and> roleCount c ''SCOUT'' = 0 \<and> roleCount c ''SOLDIER'' = 0
       \<and> length (ants c) = n"
  using roleCount_blocks [of c n 0 0] assms by simp

text \<open>The product is a product of doubles. With 62 workers, 17 scouts and 11 soldiers and
  the default ratios, the desired number of workers is 62, the floor of the double nearest to
  \<open>90 * 0.7\<close>, which is just below 63; the deficits are 0, 1 and -2, and the role is
  \<open>SCOUT\<close>.\<close>

lemma determineAntRole_colony_90:
  "desiredCount colony_90 (WORKER (ratios (cparams colony_90))) = Number 62
   \<and> desiredCount colony_90 (SCOUT (ratios (cparams colony_90))) = Number 18
   \<and> desiredCount colony_90 (SOLDIER (ratios (cparams colony_90))) = Number 9
   \<and> deficit colony_90 ''WORKER'' = Number 0 \<and> deficit colony_90 ''SCOUT'' = Number 1
   \<and> deficit colony_90 ''SOLDIER'' = Number (- 2)
   \<and> determineAntRole colony_90 = ''SCOUT''"
proof -
  have h: "ratios (cparams colony_90)
             = \<lparr> WORKER = to_number 0.7, SCOUT = to_number 0.2, SOLDIER = to_number 0.1 \<rparr>"
    "map role (ants colony_90)
       = replicate 62 ''WORKER'' @ replicate 17 ''SCOUT'' @ replicate 11 ''SOLDIER''"
    by (simp_all add: colony_90_def colony_a_def default_params_def new_Ant_def
        initRoleProperties_def)
  note rc = roleCount_blocks [OF h(2)]
  have n: "real (length (ants colony_90)) = 90"
    "real_of_int (roleCount colony_90 ''WORKER'') = 62"
    "real_of_int (roleCount colony_90 ''SCOUT'') = 17"
    "real_of_int (roleCount colony_90 ''SOLDIER'') = 11"
    using rc by simp_all
  note dv = deficit_values [OF h(1) n]
  have w: "desiredCount colony_90 (WORKER (ratios (cparams colony_90))) = Number 62"
    "desiredCount colony_90 (SCOUT (ratios (cparams colony_90))) = Number 18"
    "desiredCount colony_90 (SOLDIER (ratios (cparams colony_90))) = Number 9"
    unfolding dv desired_90 by (rule refl)+
  have v: "deficit colony_90 ''WORKER'' = Number 0" "deficit colony_90 ''SCOUT'' = Number 1"
    "deficit colony_90 ''SOLDIER'' = Number (- 2)"
    unfolding dv desired_90 js_minus_small by (rule refl)+
  have "determineAntRole colony_90 = ''SCOUT''"
    unfolding determineAntRole_def v by (simp add: js_greater_def)
  with w v show ?thesis by simp
qed

text \<open>
  C8: the desired count of a role is \<open>Math.floor(totalAnts * ratio)\<close>, the product being
  the product of doubles, and its deficit is the desired count minus the actual count.
  \<open>determineAntRole\<close> returns a role whose deficit is positive and which no other deficit
  exceeds, and strictly bigger than the deficit of every role before it in the order WORKER,
  SCOUT, SOLDIER (so the earliest role wins a tie); it returns WORKER when no role has a
  positive deficit. (A deficit is \<open>NaN\<close> only when a ratio is infinite and there is no
  ant; it is then in no relation to any other.) In particular, with the ratios 0.7, 0.2, 0.1
  and a population of five workers, the role is SCOUT.
\<close>

theorem determineAntRole_biggest_deficit:
  "deficit c ''WORKER'' =
     js_minus (js_floor (js_times (Number (real (length (ants c)))) (WORKER (ratios (cparams c)))))
       (Number (of_int (roleCount c ''WORKER'')))
   \<and> deficit c ''SCOUT'' =
     js_minus (js_floor (js_times (Number (real (length (ants c)))) (SCOUT (ratios (cparams c)))))
       (Number (of_int (roleCount c ''SCOUT'')))
   \<and> deficit c ''SOLDIER'' =
     js_minus (js_floor (js_times (Number (real (length (ants c)))) (SOLDIER (ratios (cparams c)))))
       (Number (of_int (roleCount c ''SOLDIER'')))
   \<and> (\<not> js_greater (deficit c ''WORKER'') (Number 0) \<and> \<not> js_greater (deficit c ''SCOUT'') (Number 0)
        \<and> \<not> js_greater (deficit c ''SOLDIER'') (Number 0) \<longrightarrow>
        determineAntRole c = ''WORKER'')
   \<and> (js_greater (deficit c ''WORKER'') (Number 0) \<or> js_greater (deficit c ''SCOUT'') (Number 0)
        \<or> js_greater (deficit c ''SOLDIER'') (Number 0) \<longrightarrow>
        js_greater (deficit c (determineAntRole c)) (Number 0)
        \<and> \<not> js_greater (deficit c ''WORKER'') (deficit c (determineAntRole c))
        \<and> \<not> js_greater (deficit c ''SCOUT'') (deficit c (determineAntRole c))
        \<and> \<not> js_greater (deficit c ''SOLDIER'') (deficit c (determineAntRole c)))
   \<and> determineAntRole c \<in> {''WORKER'', ''SCOUT'', ''SOLDIER''}
   \<and> (determineAntRole c = ''SCOUT'' \<longrightarrow>
        js_greater (deficit c ''SCOUT'') (deficit c ''WORKER'') \<or> deficit c ''WORKER'' = NaN)
   \<and> (determineAntRole c = ''SOLDIER'' \<longrightarrow>
        (js_greater (deficit c ''SOLDIER'') (deficit c ''WORKER'') \<or> deficit c ''WORKER'' = NaN)
        \<and> (js_greater (deficit c ''SOLDIER'') (deficit c ''SCOUT'') \<or> deficit c ''SCOUT'' = NaN))
   \<and> (ratios (cparams c) = \<lparr> WORKER = to_number 0.7, SCOUT = to_number 0.2, SOLDIER = to_number 0.1 \<rparr>
        \<and> map role (ants c) = replicate 5 ''WORKER'' \<longrightarrow> determineAntRole c = ''SCOUT'')"
proof -
  have d: "deficit c ''WORKER'' =
     js_minus (js_floor (js_times (Number (real (length (ants c)))) (WORKER (ratios (cparams c)))))
       (Number (of_int (roleCount c ''WORKER'')))"
    "deficit c ''SCOUT'' =
     js_minus (js_floor (js_times (Number (real (length (ants c)))) (SCOUT (ratios (cparams c)))))
       (Number (of_int (roleCount c ''SCOUT'')))"
    "deficit c ''SOLDIER'' =
     js_minus (js_floor (js_times (Number (real (length (ants c)))) (SOLDIER (ratios (cparams c)))))
       (Number (of_int (roleCount c ''SOLDIER'')))"
    by (simp_all add: deficit_def desiredCount_def)
  have dr: "deficit c (determineAntRole c) =
      (if determineAntRole c = ''WORKER'' then deficit c ''WORKER''
       else if determineAntRole c = ''SCOUT'' then deficit c ''SCOUT'' else deficit c ''SOLDIER'')"
    by (simp add: deficit_def)
  have g: "(\<not> js_greater (deficit c ''WORKER'') (Number 0) \<and> \<not> js_greater (deficit c ''SCOUT'') (Number 0)
        \<and> \<not> js_greater (deficit c ''SOLDIER'') (Number 0) \<longrightarrow>
        determineAntRole c = ''WORKER'')
   \<and> (js_greater (deficit c ''WORKER'') (Number 0) \<or> js_greater (deficit c ''SCOUT'') (Number 0)
        \<or> js_greater (deficit c ''SOLDIER'') (Number 0) \<longrightarrow>
        js_greater (deficit c (determineAntRole c)) (Number 0)
        \<and> \<not> js_greater (deficit c ''WORKER'') (deficit c (determineAntRole c))
        \<and> \<not> js_greater (deficit c ''SCOUT'') (deficit c (determineAntRole c))
        \<and> \<not> js_greater (deficit c ''SOLDIER'') (deficit c (determineAntRole c)))
   \<and> determineAntRole c \<in> {''WORKER'', ''SCOUT'', ''SOLDIER''}
   \<and> (determineAntRole c = ''SCOUT'' \<longrightarrow>
        js_greater (deficit c ''SCOUT'') (deficit c ''WORKER'') \<or> deficit c ''WORKER'' = NaN)
   \<and> (determineAntRole c = ''SOLDIER'' \<longrightarrow>
        (js_greater (deficit c ''SOLDIER'') (deficit c ''WORKER'') \<or> deficit c ''WORKER'' = NaN)
        \<and> (js_greater (deficit c ''SOLDIER'') (deficit c ''SCOUT'') \<or> deficit c ''SCOUT'' = NaN))"
    unfolding dr
    using deficit_loop_selects [of "deficit c ''WORKER''" "deficit c ''SCOUT''" "deficit c ''SOLDIER''",
        folded determineAntRole_def] .
  have i: "determineAntRole c = ''SCOUT''"
    if h: "ratios (cparams c) = \<lparr> WORKER = to_number 0.7, SCOUT = to_number 0.2, SOLDIER = to_number 0.1 \<rparr>"
      "map role (ants c) = replicate 5 ''WORKER''"
  proof -
    note rc = roleCount_all_workers [OF h(2)]
    have n: "real (length (ants c)) = 5" "real_of_int (roleCount c ''WORKER'') = 5"
      "real_of_int (roleCount c ''SCOUT'') = 0" "real_of_int (roleCount c ''SOLDIER'') = 0"
      using rc by simp_all
    note dv = deficit_values [OF h(1) n]
    have "deficit c ''WORKER'' = Number (- 2)" "deficit c ''SCOUT'' = Number 1"
      "deficit c ''SOLDIER'' = Number 0"
      unfolding dv desired_5 js_minus_small by (rule refl)+
    then show ?thesis unfolding determineAntRole_def by (simp add: js_greater_def)
  qed
  from d g i show ?thesis by blast
qed

theorem determineAntRole_biggest_deficit_witness:
  "ratios (cparams colony_5w) = \<lparr> WORKER = to_number 0.7, SCOUT = to_number 0.2, SOLDIER = to_number 0.1 \<rparr>
   \<and> map role (ants colony_5w) = replicate 5 ''WORKER''
   \<and> deficit colony_5w ''WORKER'' = Number (- 2) \<and> deficit colony_5w ''SCOUT'' = Number 1
   \<and> deficit colony_5w ''SOLDIER'' = Number 0
   \<and> determineAntRole colony_5w = ''SCOUT''
   \<and> js_greater (deficit colony_5w ''SCOUT'') (Number 0)
   \<and> js_greater (deficit colony_5w (determineAntRole colony_5w)) (Number 0)
   \<and> js_greater (deficit colony_5w ''SCOUT'') (deficit colony_5w ''WORKER'')"
proof -
  have h: "ratios (cparams colony_5w) = \<lparr> WORKER = to_number 0.7, SCOUT = to_number 0.2, SOLDIER = to_number 0.1 \<rparr>"
    "map role (ants colony_5w) = replicate 5 ''WORKER''"
    by (simp_all add: colony_5w_def colony_a_def default_params_def new_Ant_def
        initRoleProperties_def)
  note rc = roleCount_all_workers [OF h(2)]
  have n: "real (length (ants colony_5w)) = 5" "real_of_int (roleCount colony_5w ''WORKER'') = 5"
    "real_of_int (roleCount colony_5w ''SCOUT'') = 0" "real_of_int (roleCount colony_5w ''SOLDIER'') = 0"
    using rc by simp_all
  note dv = deficit_values [OF h(1) n]
  have v: "deficit colony_5w ''WORKER'' = Number (- 2)" "deficit colony_5w ''SCOUT'' = Number 1"
    "deficit colony_5w ''SOLDIER'' = Number 0"
    unfolding dv desired_5 js_minus_small by (rule refl)+
  have p: "js_greater (deficit colony_5w ''SCOUT'') (Number 0)"
    unfolding v by (simp add: js_greater_def)
  from determineAntRole_biggest_deficit [of colony_5w] h p
  have s: "determineAntRole colony_5w = ''SCOUT''"
    "js_greater (deficit colony_5w (determineAntRole colony_5w)) (Number 0)"
    "js_greater (deficit colony_5w ''SCOUT'') (deficit colony_5w ''WORKER'') \<or> deficit colony_5w ''WORKER'' = NaN"
    by blast+
  from s(3) v(1) have "js_greater (deficit colony_5w ''SCOUT'') (deficit colony_5w ''WORKER'')"
    by simp
  with h v s p show ?thesis by blast
qed


subsection \<open>Fatigue and rest (C9)\<close>







subsection \<open>The order of a colony update (C3)\<close>

lemma random_params: "cparams (snd (random c)) = cparams c"
  by (simp add: random_def)

lemma ant_depositPheromone_params: "cparams (ant_depositPheromone a c) = cparams c"
  by (simp add: ant_depositPheromone_def cparams_depositPheromone)

lemma shouldDepositPheromone_params: "cparams (snd (shouldDepositPheromone a c)) = cparams c"
  by (simp add: shouldDepositPheromone_def random_def Let_def split: prod.splits)

lemma updateMovement_params:
  assumes "updateMovement deltaTime a c = Inr (a', c')"
  shows "cparams c' = cparams c"
  using assms
  by (auto simp: updateMovement_def Let_def case_prod_beta ant_depositPheromone_params
      shouldDepositPheromone_params split: sum.splits if_splits)

lemma selectBasedOnProbability_params:
  "cparams (snd (selectBasedOnProbability ps c)) = cparams c"
  by (simp add: selectBasedOnProbability_def random_def Let_def split: prod.splits option.splits)

lemma checkForResources_params:
  assumes "checkForResources a c = Inr (a', c')"
  shows "cparams c' = cparams c"
  using assms
  by (auto simp: checkForResources_def collect_def deliver_def addResource_def Let_def
      split: option.splits if_splits)

lemma explore_params:
  assumes "explore a c = Inr (a', c')"
  shows "cparams c' = cparams c"
proof (cases "getNeighbors (cgraph c) (currentNodeId a) = []")
  case True
  with assms show ?thesis by (simp add: explore_def)
next
  case False
  with assms obtain ps where
    e: "(if \<not> truthy (fst (selectBasedOnProbability ps c))
         then Inr (a, snd (selectBasedOnProbability ps c))
         else checkForResources
                (moveToNode (fst (selectBasedOnProbability ps c)) a (snd (selectBasedOnProbability ps c)))
                (snd (selectBasedOnProbability ps c))) = Inr (a', c')"
    unfolding explore_def Let_def case_prod_beta by (auto split: sum.splits)
  show ?thesis
  proof (cases "truthy (fst (selectBasedOnProbability ps c))")
    case True
    with e have "cparams c' = cparams (snd (selectBasedOnProbability ps c))"
      by (simp add: checkForResources_params)
    then show ?thesis by (simp add: selectBasedOnProbability_params)
  next
    case False
    with e show ?thesis by (auto simp: selectBasedOnProbability_params)
  qed
qed

lemma returnToNest_params:
  assumes "returnToNest a c = Inr (a', c')"
  shows "cparams c' = cparams c"
  using assms
  by (auto simp: returnToNest_def random_def Let_def split: sum.splits prod.splits if_splits)

lemma followTrail_params:
  assumes "followTrail a c = Inr (a', c')"
  shows "cparams c' = cparams c"
proof -
  from assms obtain a1 ps where
    "checkForResources a1 (snd (selectBasedOnProbability ps c)) = Inr (a', c')"
    unfolding followTrail_def Let_def case_prod_beta by blast
  from checkForResources_params [OF this] show ?thesis
    by (simp add: selectBasedOnProbability_params)
qed

lemma ant_update_params:
  assumes "ant_update deltaTime a c = Inr (a', c')"
  shows "cparams c' = cparams c"
  using assms
  by (auto simp: ant_update_def Let_def
      dest: updateMovement_params explore_params returnToNest_params followTrail_params
      split: if_splits)

lemma update_ants_shape:
  "update_ants deltaTime as c = Inr (as1, c1) \<Longrightarrow>
   length as1 = length as \<and> cparams c1 = cparams c"
proof (induction as arbitrary: c as1 c1)
  case Nil
  then show ?case by simp
next
  case (Cons a as)
  from Cons.prems obtain a1 cA as2 where
    s: "ant_update deltaTime a c = Inr (a1, cA)" "update_ants deltaTime as cA = Inr (as2, c1)"
      "as1 = a1 # as2"
    by (auto split: sum.splits prod.splits)
  from Cons.IH [OF s(2)] ant_update_params [OF s(1)] s(3) show ?case by simp
qed

lemma updateAntSpawning_shape:
  "cpheromones (updateAntSpawning deltaTime c) = cpheromones c
   \<and> cparams (updateAntSpawning deltaTime c) = cparams c
   \<and> (ants (updateAntSpawning deltaTime c) = ants c
      \<or> (\<exists>rnd rl. ants (updateAntSpawning deltaTime c) = ants c @ [new_Ant rnd (nestId c) rl]))"
  by (auto simp: updateAntSpawning_def spawnAnt_def random_def Let_def)

text \<open>The update of the colony \<open>colony_t\<close>, whose one ant is returning and in transit.\<close>

lemma graph_ab_positions:
  "getNodePosition graph_ab ''a'' = Some \<lparr> vx = 0, vy = 0, vz = 0 \<rparr>"
  "getNodePosition graph_ab ''b'' = Some \<lparr> vx = 0, vy = 0, vz = 0 \<rparr>"
  by (simp_all add: getNodePosition_def graph_ab_def graph_a_def addNode_def addEdge_def
      push_edge_def hasEdge_def node_truthy_def Let_def blank_def new_graph_def or_string_def or_position_def)

lemma ant_returning_update:
  assumes "cgraph c = graph_ab"
  shows "ant_update 1 ant_returning c =
      Inr (ant_returning\<lparr> fatigue := 0.1, movementProgress := 0.55,
                           apos := \<lparr> vx = 0, vy = 0, vz = 0 \<rparr> \<rparr>,
           depositPheromone ''a'' ''b'' ''FOOD'' 0.5 c)"
  using assms
  by (simp add: ant_update_def updateFatigue_def updateMovement_def Let_def graph_ab_positions
      lerpVectors_def shouldDepositPheromone_def ant_depositPheromone_def ant_returning_def
      new_Ant_def initRoleProperties_def truthy_def idkey_def)

lemma colony_t_ants:
  "update_ants 1 (ants colony_t) colony_t =
     Inr ([ant_returning\<lparr> fatigue := 0.1, movementProgress := 0.55,
                           apos := \<lparr> vx = 0, vy = 0, vz = 0 \<rparr> \<rparr>],
          depositPheromone ''a'' ''b'' ''FOOD'' 0.5 colony_t)"
  by (simp add: ant_returning_update colony_t_def)

lemma colony_t_update:
  "update 1 colony_t = Inr (updatePheromones 1 (updateAntSpawning 1
        ((depositPheromone ''a'' ''b'' ''FOOD'' 0.5 colony_t)
           \<lparr> ants := [ant_returning\<lparr> fatigue := 0.1, movementProgress := 0.55,
                           apos := \<lparr> vx = 0, vy = 0, vz = 0 \<rparr> \<rparr>] \<rparr>)))"
  by (simp add: update_def colony_t_ants)

lemma colony_t_deposit_level:
  "getPheromoneLevel (depositPheromone ''a'' ''b'' ''FOOD'' 0.5 colony_t) ''a'' ''b'' ''FOOD'' = 0.5"
  by (simp add: getPheromoneLevel_def depositPheromone_def Let_def get_or_new_def pkey_def
      colony_t_def colony_a_def)

lemma colony_t_update_level:
  "getPheromoneLevel (updatePheromones 1 (updateAntSpawning 1
        ((depositPheromone ''a'' ''b'' ''FOOD'' 0.5 colony_t)
           \<lparr> ants := [ant_returning\<lparr> fatigue := 0.1, movementProgress := 0.55,
                           apos := \<lparr> vx = 0, vy = 0, vz = 0 \<rparr> \<rparr>] \<rparr>))) ''a'' ''b'' ''FOOD'' = 0.475"
  by (simp add: getPheromoneLevel_def updatePheromones_def updateAntSpawning_shape
      depositPheromone_def Let_def get_or_new_def decay_field_def decay_entry_def pkey_def
      colony_t_def colony_a_def default_params_def)

text \<open>
  C3, as stated, fails: \<open>AntColony.update\<close> updates the ants first, then spawns, and decays
  the field last. With one returning ant in transit from \<open>a\<close> to \<open>b\<close> and an empty
  field, the deposit of 0.5 made during the update is decayed in the same update and ends
  at 0.475; with the decay first it would end at 0.5.
\<close>

theorem update_order_counterexample:
  "\<exists>c1 c2. update 1 colony_t = Inr c1 \<and> tick_decay_first 1 colony_t = Inr c2
       \<and> getPheromoneLevel c1 ''a'' ''b'' ''FOOD'' = 0.475
       \<and> getPheromoneLevel c2 ''a'' ''b'' ''FOOD'' = 0.5"
proof -
  have u2: "tick_decay_first 1 colony_t = Inr (updateAntSpawning 1
        ((depositPheromone ''a'' ''b'' ''FOOD'' 0.5 (updatePheromones 1 colony_t))
           \<lparr> ants := [ant_returning\<lparr> fatigue := 0.1, movementProgress := 0.55,
                           apos := \<lparr> vx = 0, vy = 0, vz = 0 \<rparr> \<rparr>] \<rparr>))"
    by (simp add: tick_decay_first_def Let_def ant_returning_update colony_t_def
        updatePheromones_def)
  have l2: "getPheromoneLevel (updateAntSpawning 1
        ((depositPheromone ''a'' ''b'' ''FOOD'' 0.5 (updatePheromones 1 colony_t))
           \<lparr> ants := [ant_returning\<lparr> fatigue := 0.1, movementProgress := 0.55,
                           apos := \<lparr> vx = 0, vy = 0, vz = 0 \<rparr> \<rparr>] \<rparr>)) ''a'' ''b'' ''FOOD'' = 0.5"
    by (simp add: getPheromoneLevel_def updatePheromones_def updateAntSpawning_shape
        depositPheromone_def Let_def get_or_new_def decay_field_def decay_entry_def pkey_def
        colony_t_def colony_a_def default_params_def)
  from colony_t_update u2 colony_t_update_level l2 show ?thesis by simp
qed

text \<open>
  C3, amended: in every colony update that completes, every agent of the collection is
  updated first, in iteration order, the first one against the colony as the update found it
  (so the agents read the field before this update's decay, and after the deposits of the
  agents before them); then at most one new agent is appended, which this update does not
  update; and the decay is applied last, to the field as the agents left it.
\<close>

theorem update_order:
  assumes "update deltaTime c = Inr c'"
  shows "\<exists>as1 c1. update_ants deltaTime (ants c) c = Inr (as1, c1)
       \<and> length as1 = length (ants c)
       \<and> (case ants c of [] \<Rightarrow> True
           | a # as \<Rightarrow> \<exists>a1 cA. ant_update deltaTime a c = Inr (a1, cA) \<and> hd as1 = a1)
       \<and> (ants c' = as1 \<or> (\<exists>rnd rl. ants c' = as1 @ [new_Ant rnd (nestId c1) rl]))
       \<and> cpheromones c' =
           decay_field (1 - pheromoneDecayRate (cparams c) * deltaTime) (cpheromones c1)"
proof -
  from assms obtain as1 c1 where
    u: "update_ants deltaTime (ants c) c = Inr (as1, c1)"
      "c' = updatePheromones deltaTime (updateAntSpawning deltaTime (c1\<lparr> ants := as1 \<rparr>))"
    by (auto simp: update_def split: sum.splits prod.splits)
  note sh = update_ants_shape [OF u(1)]
  have f: "case ants c of [] \<Rightarrow> True
           | a # as \<Rightarrow> \<exists>a1 cA. ant_update deltaTime a c = Inr (a1, cA) \<and> hd as1 = a1"
    using u(1) by (auto split: list.splits sum.splits prod.splits)
  have s: "ants c' = as1 \<or> (\<exists>rnd rl. ants c' = as1 @ [new_Ant rnd (nestId c1) rl])"
    using updateAntSpawning_shape [of deltaTime "c1\<lparr> ants := as1 \<rparr>"]
    by (auto simp: u(2) updatePheromones_def)
  have d: "cpheromones c' =
           decay_field (1 - pheromoneDecayRate (cparams c) * deltaTime) (cpheromones c1)"
    using updateAntSpawning_shape [of deltaTime "c1\<lparr> ants := as1 \<rparr>"] sh
    by (simp add: u(2) updatePheromones_def)
  from u(1) sh f s d show ?thesis by blast
qed

theorem update_order_witness:
  "\<exists>c' as1 c1. update 1 colony_t = Inr c'
       \<and> update_ants 1 (ants colony_t) colony_t = Inr (as1, c1)
       \<and> length as1 = 1
       \<and> cpheromones c' = decay_field (1 - pheromoneDecayRate (cparams colony_t) * 1) (cpheromones c1)
       \<and> getPheromoneLevel c1 ''a'' ''b'' ''FOOD'' = 0.5
       \<and> getPheromoneLevel c' ''a'' ''b'' ''FOOD'' = 0.475"
proof -
  from colony_t_update obtain c' where u: "update 1 colony_t = Inr c'"
    "c' = updatePheromones 1 (updateAntSpawning 1
        ((depositPheromone ''a'' ''b'' ''FOOD'' 0.5 colony_t)
           \<lparr> ants := [ant_returning\<lparr> fatigue := 0.1, movementProgress := 0.55,
                           apos := \<lparr> vx = 0, vy = 0, vz = 0 \<rparr> \<rparr>] \<rparr>))"
    by blast
  from update_order [OF u(1)] obtain as1 c1 where
    o: "update_ants 1 (ants colony_t) colony_t = Inr (as1, c1)"
      "length as1 = length (ants colony_t)"
      "cpheromones c' = decay_field (1 - pheromoneDecayRate (cparams colony_t) * 1) (cpheromones c1)"
    by blast
  from o(1) colony_t_ants have c1: "c1 = depositPheromone ''a'' ''b'' ''FOOD'' 0.5 colony_t"
    by simp
  have l: "length (ants colony_t) = 1" by (simp add: colony_t_def)
  from u o c1 l colony_t_deposit_level colony_t_update_level show ?thesis
    by auto
qed


subsection \<open>Disrupted nodes and findPath (C5)\<close>











subsection \<open>Shortest paths of findPath (C2)\<close>

lemma reconstruct_cycle_aux:
  assumes r: "reconstruct_loop cf c p = Some res"
  shows "cf a = Some b' \<and> cf b' = Some a \<and> a \<noteq> [] \<and> b' \<noteq> [] \<longrightarrow> c \<noteq> a \<and> c \<noteq> b'"
proof (rule reconstruct_loop.raw_induct
    [where P = "\<lambda>cf c p res. cf a = Some b' \<and> cf b' = Some a \<and> a \<noteq> [] \<and> b' \<noteq> [] \<longrightarrow> c \<noteq> a \<and> c \<noteq> b'",
      OF _ r])
  fix rl :: "(string \<rightharpoonup> string) \<Rightarrow> string \<Rightarrow> string list \<Rightarrow> string list option"
  fix cf1 c1 p1 res1
  assume IH: "\<And>cf2 c2 p2 res2. rl cf2 c2 p2 = Some res2 \<Longrightarrow>
      cf2 a = Some b' \<and> cf2 b' = Some a \<and> a \<noteq> [] \<and> b' \<noteq> [] \<longrightarrow> c2 \<noteq> a \<and> c2 \<noteq> b'"
  assume step: "(if truthy (cf1 c1) then rl cf1 (idkey (cf1 c1)) (idkey (cf1 c1) # p1) else Some p1)
      = Some res1"
  show "cf1 a = Some b' \<and> cf1 b' = Some a \<and> a \<noteq> [] \<and> b' \<noteq> [] \<longrightarrow> c1 \<noteq> a \<and> c1 \<noteq> b'"
  proof (intro impI)
    assume h: "cf1 a = Some b' \<and> cf1 b' = Some a \<and> a \<noteq> [] \<and> b' \<noteq> []"
    show "c1 \<noteq> a \<and> c1 \<noteq> b'"
    proof (rule ccontr)
      assume "\<not> (c1 \<noteq> a \<and> c1 \<noteq> b')"
      then consider "c1 = a" | "c1 = b'" by blast
      then show False
      proof cases
        case 1
        with step h have "rl cf1 b' (b' # p1) = Some res1"
          by (simp add: truthy_def idkey_def)
        from IH [OF this] h show False by simp
      next
        case 2
        with step h have "rl cf1 a (a # p1) = Some res1"
          by (simp add: truthy_def idkey_def)
        from IH [OF this] h show False by simp
      qed
    qed
  qed
qed

lemma reconstruct_cycle:
  assumes "cf a = Some b'" "cf b' = Some a" "a \<noteq> []" "b' \<noteq> []"
  shows "reconstruct_loop cf a p = None"
proof (cases "reconstruct_loop cf a p")
  case None
  then show ?thesis .
next
  case (Some res)
  from reconstruct_cycle_aux [OF Some, of a b'] assms show ?thesis by simp
qed

lemma graph_line_nodes:
  "\<exists>n. nodes graph_line ''s'' = Some n \<and> \<not> disrupted n \<and> position n = \<lparr> vx = 0, vy = 0, vz = 0 \<rparr>"
  "\<exists>n. nodes graph_line ''m'' = Some n \<and> \<not> disrupted n \<and> position n = \<lparr> vx = 0, vy = 0, vz = 0 \<rparr>"
  "\<exists>n. nodes graph_line ''e'' = Some n \<and> \<not> disrupted n \<and> position n = \<lparr> vx = 0, vy = 0, vz = 0 \<rparr>"
  "getNeighbors graph_line ''s'' = [''m'']"
  "getNeighbors graph_line ''m'' = [''s'', ''e'']"
  "getNeighbors graph_line ''e'' = [''m'']"
  by (simp_all add: graph_line_def with_edge_def addNode_def addEdge_def push_edge_def hasEdge_def node_truthy_def
      getNeighbors_def Let_def blank_def new_graph_def or_string_def or_position_def)


lemma graph_line_heuristic:
  "heuristic graph_line ''s'' ''e'' = Inr 0"
  "heuristic graph_line ''m'' ''e'' = Inr 0"
  "heuristic graph_line ''e'' ''e'' = Inr 0"
  using graph_line_nodes(1-3) by (auto simp: heuristic_def Let_def)

lemma line_reconstruct:
  assumes "cf ''e'' = Some ''m''" "cf ''m'' = Some ''s''" "cf ''s'' = Some ''m''"
  shows "reconstructPath cf ''e'' = None"
proof -
  have "reconstruct_loop cf ''m'' [''m'', ''e''] = None"
    using assms by (intro reconstruct_cycle [where b' = "''s''"]) simp_all
  then show ?thesis
    unfolding reconstructPath_def
    by (subst reconstruct_loop.simps) (simp add: truthy_def idkey_def assms)
qed

text \<open>
  C2 fails on the code: on the line graph \<open>s - m - e\<close>, with no node disrupted,
  \<open>findPath(s, e)\<close> does not return. When \<open>m\<close> is expanded, the test
  \<open>!gScore[neighborId]\<close> takes the score 0 of the start node for a missing score and
  records \<open>m\<close> as the predecessor of \<open>s\<close>; \<open>reconstructPath\<close> then walks the cycle
  between \<open>s\<close> and \<open>m\<close> for ever. The shortest path \<open>s, m, e\<close> of two hops exists.
\<close>

theorem findPath_line_diverges:
  "findPath graph_line ''s'' ''e'' = None
   \<and> hasEdge graph_line ''s'' ''m'' = Inr True \<and> hasEdge graph_line ''m'' ''e'' = Inr True
   \<and> passable graph_line ''s'' \<and> passable graph_line ''m'' \<and> passable graph_line ''e''"
proof -
  from graph_line_nodes(1-3) obtain ns nm ne where
    n: "nodes graph_line ''s'' = Some ns" "\<not> disrupted ns"
       "nodes graph_line ''m'' = Some nm" "\<not> disrupted nm"
       "nodes graph_line ''e'' = Some ne" "\<not> disrupted ne"
    by blast
  note ev = Let_def n graph_line_nodes(4-6) graph_line_heuristic no_score_def less_score_def
  have e: "hasEdge graph_line ''s'' ''m'' = Inr True" "hasEdge graph_line ''m'' ''e'' = Inr True"
    by (simp_all add: graph_line_def with_edge_def addNode_def addEdge_def push_edge_def
        hasEdge_def node_truthy_def Let_def blank_def new_graph_def or_string_def)
  have p: "passable graph_line ''s''" "passable graph_line ''m''" "passable graph_line ''e''"
    using n by (simp_all add: passable_def)
  have "findPath graph_line ''s'' ''e'' = None"
    unfolding findPath_def
    apply (simp add: graph_line_heuristic)
    apply (subst findPath_loop.simps, simp add: ev)
    apply (subst findPath_loop.simps, simp add: ev)
    apply (subst findPath_loop.simps, simp add: ev)
    apply (subst findPath_loop.simps, simp add: ev line_reconstruct)
    done
  with e p show ?thesis by simp
qed

subsection \<open>Distances to the nest (C1)\<close>


lemma adjacent_getNeighbors: "adjacent gr u v = (v \<in> set (getNeighbors gr u))"
  by (simp add: adjacent_def getNeighbors_def split: option.splits)

lemma same_shape_refl: "same_shape gr gr"
proof -
  have "\<exists>d. Some n = Some (n\<lparr> distanceToNest := d \<rparr>)" for n :: node
    by (rule exI [of _ "distanceToNest n"]) simp
  then show ?thesis
    by (auto simp: same_shape_def split: option.splits)
qed

lemma same_shape_dom: "same_shape gr0 gr \<Longrightarrow> (nodes gr v = None) = (nodes gr0 v = None)"
proof -
  assume "same_shape gr0 gr"
  then have "case nodes gr0 v of None \<Rightarrow> nodes gr v = None
               | Some n \<Rightarrow> (\<exists>d. nodes gr v = Some (n\<lparr> distanceToNest := d \<rparr>))"
    by (simp add: same_shape_def)
  then show ?thesis by (cases "nodes gr0 v") auto
qed

lemma same_shape_edges:
  "same_shape gr0 gr \<Longrightarrow> getNeighbors gr u = getNeighbors gr0 u \<and> adjacent gr u v = adjacent gr0 u v"
  by (simp add: same_shape_def getNeighbors_def adjacent_def)

lemma same_shape_update:
  assumes "same_shape gr0 gr" "nodes gr v = Some n"
  shows "same_shape gr0 (gr\<lparr> nodes := (nodes gr)(v \<mapsto> n\<lparr> distanceToNest := d \<rparr>) \<rparr>)"
  unfolding same_shape_def
proof (intro conjI allI)
  fix w
  from assms(1) have w: "case nodes gr0 w of None \<Rightarrow> nodes gr w = None
               | Some n \<Rightarrow> (\<exists>d. nodes gr w = Some (n\<lparr> distanceToNest := d \<rparr>))"
    by (simp add: same_shape_def)
  show "case nodes gr0 w of
          None \<Rightarrow> nodes (gr\<lparr> nodes := (nodes gr)(v \<mapsto> n\<lparr> distanceToNest := d \<rparr>) \<rparr>) w = None
        | Some n0 \<Rightarrow> \<exists>d'. nodes (gr\<lparr> nodes := (nodes gr)(v \<mapsto> n\<lparr> distanceToNest := d \<rparr>) \<rparr>) w
                          = Some (n0\<lparr> distanceToNest := d' \<rparr>)"
  proof (cases "w = v")
    case True
    with w assms(2) obtain n0 d0 where "nodes gr0 w = Some n0" "n = n0\<lparr> distanceToNest := d0 \<rparr>"
      by (cases "nodes gr0 w") auto
    with True show ?thesis by auto
  next
    case False
    with w show ?thesis by (cases "nodes gr0 w") auto
  qed
qed (use assms(1) in \<open>simp_all add: same_shape_def\<close>)

lemma dist_of_update:
  "dist_of (gr\<lparr> nodes := (nodes gr)(v \<mapsto> n\<lparr> distanceToNest := d \<rparr>) \<rparr>) w
     = (if w = v then d else dist_of gr w)"
  by (simp add: dist_of_def)

lemma neighbors_loop_result:
  assumes "\<forall>v \<in> set nbs. nodes gr v \<noteq> None" "same_shape gr0 gr"
  shows "\<exists>gr' pushed. neighbors_loop vis d nbs gr q = Inr (gr', q @ pushed)
     \<and> set pushed = {v \<in> set nbs. v \<notin> vis \<and> d + 1 < dist_of gr v}
     \<and> (\<forall>v. dist_of gr' v
               = (if v \<in> set nbs \<and> v \<notin> vis \<and> d + 1 < dist_of gr v then d + 1 else dist_of gr v))
     \<and> same_shape gr0 gr'"
  using assms
proof (induction nbs arbitrary: gr q)
  case Nil
  then show ?case by simp
next
  case (Cons nb nbs)
  from Cons.prems obtain n where n: "nodes gr nb = Some n" by auto
  have dn: "dist_of gr nb = distanceToNest n" using n by (simp add: dist_of_def)
  have rest: "\<forall>v \<in> set nbs. nodes gr v \<noteq> None" using Cons.prems by simp
  show ?case
  proof (cases "nb \<notin> vis \<and> d + 1 < distanceToNest n")
    case False
    from Cons.IH [OF rest Cons.prems(2), of q] obtain gr' pushed where
      r: "neighbors_loop vis d nbs gr q = Inr (gr', q @ pushed)"
        "set pushed = {v \<in> set nbs. v \<notin> vis \<and> d + 1 < dist_of gr v}"
        "\<forall>v. dist_of gr' v
               = (if v \<in> set nbs \<and> v \<notin> vis \<and> d + 1 < dist_of gr v then d + 1 else dist_of gr v)"
        "same_shape gr0 gr'"
      by blast
    have 1: "neighbors_loop vis d (nb # nbs) gr q = Inr (gr', q @ pushed)"
      using False n r(1) by (auto simp: Let_def)
    have 2: "set pushed = {v \<in> set (nb # nbs). v \<notin> vis \<and> d + 1 < dist_of gr v}"
      using False dn r(2) by auto
    have 3: "\<forall>v. dist_of gr' v
               = (if v \<in> set (nb # nbs) \<and> v \<notin> vis \<and> d + 1 < dist_of gr v then d + 1 else dist_of gr v)"
      using False dn r(3) by auto
    from 1 2 3 r(4) show ?thesis by blast
  next
    case True
    define gr1 where "gr1 = gr\<lparr> nodes := (nodes gr)(nb \<mapsto> n\<lparr> distanceToNest := d + 1 \<rparr>) \<rparr>"
    have d1: "dist_of gr1 w = (if w = nb then d + 1 else dist_of gr w)" for w
      by (simp add: gr1_def dist_of_update)
    have rest1: "\<forall>v \<in> set nbs. nodes gr1 v \<noteq> None" using rest by (simp add: gr1_def)
    have sh1: "same_shape gr0 gr1"
      unfolding gr1_def using Cons.prems(2) n by (rule same_shape_update)
    from Cons.IH [OF rest1 sh1, of "q @ [nb]"] obtain gr' pushed where
      r: "neighbors_loop vis d nbs gr1 (q @ [nb]) = Inr (gr', (q @ [nb]) @ pushed)"
        "set pushed = {v \<in> set nbs. v \<notin> vis \<and> d + 1 < dist_of gr1 v}"
        "\<forall>v. dist_of gr' v
               = (if v \<in> set nbs \<and> v \<notin> vis \<and> d + 1 < dist_of gr1 v then d + 1 else dist_of gr1 v)"
        "same_shape gr0 gr'"
      by blast
    have 1: "neighbors_loop vis d (nb # nbs) gr q = Inr (gr', q @ (nb # pushed))"
      using True n r(1) by (simp add: Let_def gr1_def)
    have 2: "set (nb # pushed) = {v \<in> set (nb # nbs). v \<notin> vis \<and> d + 1 < dist_of gr v}"
      using True dn r(2) d1 by auto
    have 3: "\<forall>v. dist_of gr' v
               = (if v \<in> set (nb # nbs) \<and> v \<notin> vis \<and> d + 1 < dist_of gr v then d + 1 else dist_of gr v)"
      using True dn r(3) d1 by auto
    from 1 2 3 r(4) show ?thesis by blast
  qed
qed


lemma enat_le_plus1: "(a::enat) \<le> a + 1"
  by (cases a) (simp_all add: one_enat_def)

lemma enat_le_trans_plus1: "(a::enat) \<le> b' \<Longrightarrow> a \<le> b' + 1"
  using enat_le_plus1 [of b'] by (rule order_trans [rotated])

lemma enat_not_less_le: "\<not> (a::enat) < b' \<Longrightarrow> b' \<le> a"
  by simp

lemma bfs_step:
  assumes inv: "bfs_inv gr0 T gr (u # rest') vis" and nv: "u \<notin> vis" and wf: "wf_graph gr0"
  shows "\<exists>cur gr1 q1. nodes gr u = Some cur
     \<and> neighbors_loop (insert u vis) (distanceToNest cur) (getNeighbors gr u) gr rest' = Inr (gr1, q1)
     \<and> bfs_inv gr0 T gr1 q1 (insert u vis)"
proof -
  from inv have sh: "same_shape gr0 gr"
    and i2: "dist_of gr T = 0"
    and i3: "\<forall>v d. dist_of gr v = enat d \<longrightarrow> hops gr0 T d v"
    and i4: "\<forall>v. (dist_of gr v \<noteq> \<infinity>) = (v \<in> vis \<union> set (u # rest'))"
    and i5: "sorted (map (dist_of gr) (u # rest'))"
    and i6: "\<forall>v \<in> vis. \<forall>q \<in> set (u # rest'). dist_of gr v \<le> dist_of gr q"
    and i7: "\<forall>q \<in> set (u # rest'). \<forall>q' \<in> set (u # rest'). dist_of gr q' \<le> dist_of gr q + 1"
    and i8: "\<forall>u' \<in> vis. \<forall>w. adjacent gr0 u' w \<longrightarrow> dist_of gr w \<le> dist_of gr u' + 1"
    unfolding bfs_inv_def by blast+
  from i4 have "dist_of gr u \<noteq> \<infinity>" by simp
  then obtain cur n where cur: "nodes gr u = Some cur" "distanceToNest cur = enat n"
    by (auto simp: dist_of_def split: option.splits)
  define d where "d = distanceToNest cur"
  have du: "dist_of gr u = d" using cur by (simp add: dist_of_def d_def)
  have dn: "d = enat n" using cur by (simp add: d_def)
  define nbs where "nbs = getNeighbors gr u"
  define vis1 where "vis1 = insert u vis"
  have nb_edge: "v \<in> set nbs \<longleftrightarrow> adjacent gr0 u v" for v
    using same_shape_edges [OF sh, of u v] by (simp add: nbs_def adjacent_getNeighbors)
  have nb_nodes: "\<forall>v \<in> set nbs. nodes gr v \<noteq> None"
    using nb_edge wf same_shape_dom [OF sh] by (auto simp: wf_graph_def)
  from neighbors_loop_result [OF nb_nodes sh, of vis1 d rest'] obtain gr1 pushed where
    r: "neighbors_loop vis1 d nbs gr rest' = Inr (gr1, rest' @ pushed)"
      "set pushed = {v \<in> set nbs. v \<notin> vis1 \<and> d + 1 < dist_of gr v}"
      "\<forall>v. dist_of gr1 v
             = (if v \<in> set nbs \<and> v \<notin> vis1 \<and> d + 1 < dist_of gr v then d + 1 else dist_of gr v)"
      "same_shape gr0 gr1"
    by blast
  define U where "U = {v \<in> set nbs. v \<notin> vis1 \<and> d + 1 < dist_of gr v}"
  have d1: "dist_of gr1 v = (if v \<in> U then d + 1 else dist_of gr v)" for v
    using r(3) by (simp add: U_def)
  have f1: "d \<le> dist_of gr q \<and> dist_of gr q \<le> d + 1" if "q \<in> set rest'" for q
    using i5 i7 that du by auto
  have f2: "dist_of gr v \<le> d" if "v \<in> vis1" for v
    using i6 that du by (auto simp: vis1_def)
  have f3: "v \<notin> vis1 \<and> v \<notin> set rest' \<and> v \<in> set nbs \<and> d + 1 < dist_of gr v" if "v \<in> U" for v
  proof -
    from that have a: "v \<in> set nbs" "v \<notin> vis1" "d + 1 < dist_of gr v" by (auto simp: U_def)
    have "v \<notin> set rest'" using f1 [of v] a(3) by auto
    with a show ?thesis by simp
  qed
  have f5: "dist_of gr1 v = dist_of gr v" if "v \<in> vis1 \<union> set rest'" for v
    using that f3 [of v] d1 [of v] by auto
  have c2: "dist_of gr1 T = 0"
    using d1 [of T] f3 [of T] i2 by auto
  have c3: "\<forall>v dd. dist_of gr1 v = enat dd \<longrightarrow> hops gr0 T dd v"
  proof (intro allI impI)
    fix v dd
    assume a: "dist_of gr1 v = enat dd"
    show "hops gr0 T dd v"
    proof (cases "v \<in> U")
      case True
      with a d1 [of v] dn have "dd = Suc n" by (simp add: one_enat_def)
      moreover have "hops gr0 T n u" using i3 du dn by simp
      moreover have "adjacent gr0 u v" using f3 [OF True] nb_edge by simp
      ultimately show ?thesis by (auto intro: hops_step)
    next
      case False
      with a d1 [of v] i3 show ?thesis by simp
    qed
  qed
  have c4: "\<forall>v. (dist_of gr1 v \<noteq> \<infinity>) = (v \<in> vis1 \<union> set (rest' @ pushed))"
  proof
    fix v
    show "(dist_of gr1 v \<noteq> \<infinity>) = (v \<in> vis1 \<union> set (rest' @ pushed))"
    proof (cases "v \<in> U")
      case True
      then show ?thesis using d1 [of v] dn r(2) by (simp add: U_def one_enat_def)
    next
      case False
      then show ?thesis using d1 [of v] i4 r(2) by (auto simp: U_def vis1_def)
    qed
  qed
  have pd: "dist_of gr1 q = d + 1" if "q \<in> set pushed" for q
    using that r(2) d1 [of q] by (simp add: U_def)
  have rd: "dist_of gr1 q = dist_of gr q" if "q \<in> set rest'" for q
    using that f5 by simp
  have c5: "sorted (map (dist_of gr1) (rest' @ pushed))"
  proof -
    have m1: "map (dist_of gr1) rest' = map (dist_of gr) rest'"
      by (rule map_cong [OF refl rd])
    have s1: "sorted (map (dist_of gr1) rest')"
      unfolding m1 using i5 by simp
    have m2: "map (dist_of gr1) pushed = map (\<lambda>q. d + 1) pushed"
      by (rule map_cong [OF refl pd])
    have s2: "sorted (map (dist_of gr1) pushed)"
      unfolding m2 by (simp add: map_replicate_const)
    have s3: "dist_of gr1 a \<le> dist_of gr1 c" if "a \<in> set rest'" "c \<in> set pushed" for a c
      using that rd [of a] pd [of c] f1 [of a] by simp
    show ?thesis
      using s1 s2 s3 by (simp add: sorted_append)
  qed
  have c6: "\<forall>v \<in> vis1. \<forall>q \<in> set (rest' @ pushed). dist_of gr1 v \<le> dist_of gr1 q"
  proof (intro ballI)
    fix v q
    assume v: "v \<in> vis1" and q: "q \<in> set (rest' @ pushed)"
    have "dist_of gr1 v \<le> d" using f5 [of v] f2 [OF v] v by simp
    moreover have "d \<le> dist_of gr1 q"
      using q pd [of q] rd [of q] f1 [of q] enat_le_plus1 [of d] by auto
    ultimately show "dist_of gr1 v \<le> dist_of gr1 q" by (rule order_trans)
  qed
  have c7: "\<forall>q \<in> set (rest' @ pushed). \<forall>q' \<in> set (rest' @ pushed). dist_of gr1 q' \<le> dist_of gr1 q + 1"
  proof (intro ballI)
    fix q q'
    assume q: "q \<in> set (rest' @ pushed)" and q': "q' \<in> set (rest' @ pushed)"
    have "d \<le> dist_of gr1 q"
      using q pd [of q] rd [of q] f1 [of q] enat_le_plus1 [of d] by auto
    then have "d + 1 \<le> dist_of gr1 q + 1" by (rule add_right_mono)
    moreover have "dist_of gr1 q' \<le> d + 1"
      using q' pd [of q'] rd [of q'] f1 [of q'] by auto
    ultimately show "dist_of gr1 q' \<le> dist_of gr1 q + 1" by (rule order_trans [rotated])
  qed
  have le1: "dist_of gr1 w \<le> dist_of gr w" for w
    using d1 [of w] f3 [of w] by auto
  have c8: "\<forall>u' \<in> vis1. \<forall>w. adjacent gr0 u' w \<longrightarrow> dist_of gr1 w \<le> dist_of gr1 u' + 1"
  proof (intro ballI allI impI)
    fix u' w
    assume u': "u' \<in> vis1" and e: "adjacent gr0 u' w"
    have same: "dist_of gr1 u' = dist_of gr u'" using f5 [of u'] u' by simp
    show "dist_of gr1 w \<le> dist_of gr1 u' + 1"
    proof (cases "u' = u")
      case False
      with u' have "u' \<in> vis" by (simp add: vis1_def)
      with i8 e have "dist_of gr w \<le> dist_of gr u' + 1" by blast
      with le1 [of w] same show ?thesis by (auto intro: order_trans)
    next
      case True
      with e nb_edge have wn: "w \<in> set nbs" by simp
      have "dist_of gr1 w \<le> d + 1"
      proof (cases "w \<in> U")
        case True
        then show ?thesis using d1 [of w] by simp
      next
        case False
        show ?thesis
        proof (cases "w \<in> vis1")
          case True
          from f2 [OF this] le1 [of w] have "dist_of gr1 w \<le> d" by (rule order_trans [rotated])
          then show ?thesis by (rule enat_le_trans_plus1)
        next
          case nvw: False
          with False wn have "\<not> d + 1 < dist_of gr w" by (simp add: U_def)
          then have "dist_of gr w \<le> d + 1" by simp
          with le1 [of w] show ?thesis by (rule order_trans)
        qed
      qed
      with same True du show ?thesis by simp
    qed
  qed
  have "bfs_inv gr0 T gr1 (rest' @ pushed) vis1"
    unfolding bfs_inv_def using r(4) c2 c3 c4 c5 c6 c7 c8 by blast
  with cur(1) r(1) show ?thesis
    unfolding vis1_def d_def nbs_def by blast
qed


lemma bfs_skip:
  assumes "bfs_inv gr0 T gr (u # rest') vis" "u \<in> vis"
  shows "bfs_inv gr0 T gr rest' vis"
proof -
  from assms(1) have sh: "same_shape gr0 gr"
    and i2: "dist_of gr T = 0"
    and i3: "\<forall>v d. dist_of gr v = enat d \<longrightarrow> hops gr0 T d v"
    and i4: "\<forall>v. (dist_of gr v \<noteq> \<infinity>) = (v \<in> vis \<union> set (u # rest'))"
    and i5: "sorted (map (dist_of gr) (u # rest'))"
    and i6: "\<forall>v \<in> vis. \<forall>q \<in> set (u # rest'). dist_of gr v \<le> dist_of gr q"
    and i7: "\<forall>q \<in> set (u # rest'). \<forall>q' \<in> set (u # rest'). dist_of gr q' \<le> dist_of gr q + 1"
    and i8: "\<forall>u' \<in> vis. \<forall>w. adjacent gr0 u' w \<longrightarrow> dist_of gr w \<le> dist_of gr u' + 1"
    unfolding bfs_inv_def by blast+
  have c4: "\<forall>v. (dist_of gr v \<noteq> \<infinity>) = (v \<in> vis \<union> set rest')"
    using i4 assms(2) by auto
  have c5: "sorted (map (dist_of gr) rest')" using i5 by simp
  have c6: "\<forall>v \<in> vis. \<forall>q \<in> set rest'. dist_of gr v \<le> dist_of gr q" using i6 by simp
  have c7: "\<forall>q \<in> set rest'. \<forall>q' \<in> set rest'. dist_of gr q' \<le> dist_of gr q + 1" using i7 by simp
  show ?thesis
    unfolding bfs_inv_def using sh i2 i3 c4 c5 c6 c7 i8 by blast
qed

lemma bfs_visited_nodes:
  assumes "bfs_inv gr0 T gr q vis"
  shows "vis \<union> set q \<subseteq> dom (nodes gr0)"
proof
  fix v
  assume "v \<in> vis \<union> set q"
  with assms have "dist_of gr v \<noteq> \<infinity>" unfolding bfs_inv_def by blast
  then have "nodes gr v \<noteq> None" by (auto simp: dist_of_def split: option.splits)
  moreover from assms have "same_shape gr0 gr" unfolding bfs_inv_def by blast
  ultimately show "v \<in> dom (nodes gr0)" using same_shape_dom [of gr0 gr v] by auto
qed

lemma distance_loop_total:
  assumes wf: "wf_graph gr0"
  shows "card (dom (nodes gr0) - vis) = n \<Longrightarrow> bfs_inv gr0 T gr q vis \<Longrightarrow>
    \<exists>gr' vis'. distance_loop gr q vis = Some (Inr gr') \<and> bfs_inv gr0 T gr' [] vis'"
proof (induction n arbitrary: gr q vis rule: less_induct)
  case (less n)
  have "bfs_inv gr0 T gr q' vis \<Longrightarrow>
      \<exists>gr' vis'. distance_loop gr q' vis = Some (Inr gr') \<and> bfs_inv gr0 T gr' [] vis'" for q'
  proof (induction q')
    case Nil
    have "distance_loop gr [] vis = Some (Inr gr)"
      by (subst distance_loop.simps) simp
    with Nil show ?case by blast
  next
    case (Cons u rest')
    show ?case
    proof (cases "u \<in> vis")
      case True
      have "distance_loop gr (u # rest') vis = distance_loop gr rest' vis"
        using True by (subst distance_loop.simps) simp
      with Cons.IH [OF bfs_skip [OF Cons.prems True]] show ?thesis by simp
    next
      case False
      from bfs_step [OF Cons.prems False wf] obtain cur gr1 q1 where
        s: "nodes gr u = Some cur"
          "neighbors_loop (insert u vis) (distanceToNest cur) (getNeighbors gr u) gr rest' = Inr (gr1, q1)"
          "bfs_inv gr0 T gr1 q1 (insert u vis)"
        by blast
      have e: "distance_loop gr (u # rest') vis = distance_loop gr1 q1 (insert u vis)"
        using False s(1,2) by (subst distance_loop.simps) simp
      from bfs_visited_nodes [OF Cons.prems] have um: "u \<in> dom (nodes gr0) - vis"
        using False by auto
      have fin: "finite (dom (nodes gr0) - vis)"
        using wf by (simp add: wf_graph_def)
      have "dom (nodes gr0) - insert u vis = (dom (nodes gr0) - vis) - {u}"
        by auto
      with card_Diff1_less [OF fin um]
      have "card (dom (nodes gr0) - insert u vis) < card (dom (nodes gr0) - vis)"
        by simp
      with less.prems(1) have "card (dom (nodes gr0) - insert u vis) < n" by simp
      from less.IH [OF this refl s(3)] e show ?thesis by simp
    qed
  qed
  from this [OF less.prems(2)] show ?case .
qed

lemma hops_path:
  assumes "wf_graph gr" "hops gr T n v"
  shows "\<exists>p. hop_path gr p \<and> hd p = v \<and> last p = T \<and> length p = Suc n"
  using assms(2)
proof (induction rule: hops.induct)
  case hops_target
  have "hop_path gr [T] \<and> hd [T] = T \<and> last [T] = T \<and> length [T] = Suc 0"
    using hops_target by simp
  then show ?case by blast
next
  case (hops_step n u v)
  then obtain p where p: "hop_path gr p" "hd p = u" "last p = T" "length p = Suc n"
    by blast
  then obtain p' where p': "p = u # p'" by (cases p) auto
  from hops_step.hyps(2) assms(1) have e: "nodes gr v \<noteq> None" "adjacent gr v u"
    by (auto simp: wf_graph_def)
  have "hop_path gr (v # p) \<and> hd (v # p) = v \<and> last (v # p) = T \<and> length (v # p) = Suc (Suc n)"
    using p p' e by auto
  then show ?case by blast
qed

lemma path_hops:
  "hop_path gr p \<Longrightarrow> wf_graph gr \<Longrightarrow> hops gr (last p) (length p - 1) (hd p)"
proof (induction gr p rule: hop_path.induct)
  case (1 gr)
  then show ?case by simp
next
  case (2 gr v)
  then show ?case by (simp add: hops_target)
next
  case (3 gr u v p)
  then have h: "hops gr (last (v # p)) (length (v # p) - 1) v" and e: "adjacent gr u v"
    by simp_all
  from e "3.prems"(2) have "adjacent gr v u"
    by (auto simp: wf_graph_def)
  from hops_step [OF h this] show ?case by simp
qed


lemma wf_new_graph: "wf_graph new_graph"
  by (simp add: wf_graph_def new_graph_def adjacent_def)

lemma wf_addNode:
  assumes "wf_graph gr" "addNode gen nd gr = (i, gr')" "nodes gr i = None"
  shows "wf_graph gr'"
proof -
  from assms(2) obtain n where
    g: "nodes gr' = (nodes gr)(i \<mapsto> n)" "edges gr' = (edges gr)(i \<mapsto> [])"
    by (auto simp: addNode_def Let_def)
  have e: "adjacent gr' a c = (a \<noteq> i \<and> adjacent gr a c)" for a c
    by (simp add: adjacent_def g)
  have ni: "c \<noteq> i" if "adjacent gr a c" for a c
  proof
    assume "c = i"
    with that have "adjacent gr a i" by simp
    with assms(1) have "nodes gr i \<noteq> None" unfolding wf_graph_def by blast
    with assms(3) show False by simp
  qed
  show ?thesis
    unfolding wf_graph_def
  proof (intro conjI allI impI)
    show "finite (dom (nodes gr'))" using assms(1) by (simp add: g wf_graph_def)
  next
    fix a c assume h: "adjacent gr' a c"
    with e have h0: "a \<noteq> i" "adjacent gr a c" by simp_all
    with assms(1) have "nodes gr a \<noteq> None" "nodes gr c \<noteq> None" "adjacent gr c a"
      by (auto simp: wf_graph_def)
    with h0 ni [OF h0(2)] show "nodes gr' a \<noteq> None" "nodes gr' c \<noteq> None" "adjacent gr' c a"
      by (simp_all add: g e)
  qed
qed

lemma built_new_graph: "built new_graph"
  using wf_new_graph by (simp add: built_def new_graph_def)

lemma built_addNode:
  assumes "built gr" "addNode gen nd gr = (i, gr')" "nodes gr i = None"
  shows "built gr'"
proof -
  from assms(1) have w: "wf_graph gr" and d: "dom (edges gr) \<subseteq> dom (nodes gr)"
    by (simp_all add: built_def)
  from assms(2) obtain n where
    g: "nodes gr' = (nodes gr)(i \<mapsto> n)" "edges gr' = (edges gr)(i \<mapsto> [])"
    by (auto simp: addNode_def Let_def)
  from d have "dom (edges gr') \<subseteq> dom (nodes gr')" unfolding g by auto
  with wf_addNode [OF w assms(2,3)] show ?thesis by (simp add: built_def)
qed

lemma addEdge_cases:
  assumes "addEdge a c gr = Inr (ok, gr')"
  shows "gr' = gr \<or>
    (\<exists>la lc. edges gr a = Some la \<and> ((edges gr)(a \<mapsto> la @ [c])) c = Some lc
        \<and> gr' = gr\<lparr> edges := (edges gr)(a \<mapsto> la @ [c], c \<mapsto> lc @ [a]) \<rparr>)"
proof (cases "\<not> node_truthy gr a \<or> \<not> node_truthy gr c")
  case True
  with assms show ?thesis by (simp add: addEdge_def)
next
  case nt: False
  show ?thesis
  proof (cases "hasEdge gr a c")
    case (Inl e)
    with assms nt show ?thesis by (simp add: addEdge_def)
  next
    case (Inr found)
    show ?thesis
    proof (cases found)
      case True
      with assms nt Inr show ?thesis by (simp add: addEdge_def)
    next
      case False
      with assms nt Inr have
        "(case push_edge a c gr of
            Inl e \<Rightarrow> Inl e
          | Inr g1 \<Rightarrow> (case push_edge c a g1 of
                         Inl e \<Rightarrow> Inl e
                       | Inr g2 \<Rightarrow> Inr (True, g2))) = Inr (ok, gr')"
        by (simp add: addEdge_def)
      then obtain g1 where g1: "push_edge a c gr = Inr g1" "push_edge c a g1 = Inr gr'"
        by (auto split: sum.splits)
      from g1(1) obtain la where
        la: "edges gr a = Some la" "g1 = gr\<lparr> edges := (edges gr)(a \<mapsto> la @ [c]) \<rparr>"
        by (auto simp: push_edge_def split: option.splits)
      from g1(2) obtain lc where
        lc: "edges g1 c = Some lc" "gr' = g1\<lparr> edges := (edges g1)(c \<mapsto> lc @ [a]) \<rparr>"
        by (auto simp: push_edge_def split: option.splits)
      from lc(1) have "((edges gr)(a \<mapsto> la @ [c])) c = Some lc"
        by (simp add: la(2))
      moreover from lc(2) have "gr' = gr\<lparr> edges := (edges gr)(a \<mapsto> la @ [c], c \<mapsto> lc @ [a]) \<rparr>"
        by (simp add: la(2))
      ultimately show ?thesis using la(1) by blast
    qed
  qed
qed

lemma built_addEdge:
  assumes "built gr" "addEdge a c gr = Inr (ok, gr')"
  shows "built gr'"
proof -
  from assms(1) have w: "wf_graph gr" and d: "dom (edges gr) \<subseteq> dom (nodes gr)"
    by (simp_all add: built_def)
  from addEdge_cases [OF assms(2)] show ?thesis
  proof
    assume "gr' = gr"
    with assms(1) show ?thesis by simp
  next
    assume "\<exists>la lc. edges gr a = Some la \<and> ((edges gr)(a \<mapsto> la @ [c])) c = Some lc
        \<and> gr' = gr\<lparr> edges := (edges gr)(a \<mapsto> la @ [c], c \<mapsto> lc @ [a]) \<rparr>"
    then obtain la lc where
      g: "edges gr a = Some la" "((edges gr)(a \<mapsto> la @ [c])) c = Some lc"
        "gr' = gr\<lparr> edges := (edges gr)(a \<mapsto> la @ [c], c \<mapsto> lc @ [a]) \<rparr>"
      by blast
    from g(1) d have na: "nodes gr a \<noteq> None" by auto
    from g(2) have "c \<in> dom (edges gr) \<or> c = a" by (auto split: if_splits)
    with d na have nc: "nodes gr c \<noteq> None" by auto
    have e: "adjacent gr' p q \<longrightarrow> (adjacent gr p q \<or> (p = a \<and> q = c) \<or> (p = c \<and> q = a))"
      "adjacent gr p q \<or> (p = a \<and> q = c) \<or> (p = c \<and> q = a) \<longrightarrow> adjacent gr' p q" for p q
      using g by (auto simp: adjacent_def split: if_splits option.splits)
    have n: "nodes gr' = nodes gr" by (simp add: g)
    have dg: "dom (edges gr') \<subseteq> dom (nodes gr')"
      unfolding n using d na nc by (auto simp: g(3))
    have "wf_graph gr'"
      unfolding wf_graph_def n
    proof (intro conjI allI impI)
      show "finite (dom (nodes gr))" using w by (simp add: wf_graph_def)
    next
      fix p q assume "adjacent gr' p q"
      with e [of p q] e [of q p] w na nc
      show "nodes gr p \<noteq> None" "nodes gr q \<noteq> None" "adjacent gr' q p"
        by (auto simp: wf_graph_def)
    qed
    with dg show ?thesis by (simp add: built_def)
  qed
qed

lemma bfs_init:
  assumes "nodes gr T \<noteq> None"
  shows "bfs_inv gr T (seed_target T (reset_distances gr)) [T] {}"
proof -
  from assms obtain nT where nT: "nodes gr T = Some nT" by auto
  define g2 where "g2 = seed_target T (reset_distances gr)"
  have n2: "nodes g2 v = (if v = T then Some (nT\<lparr> distanceToNest := 0 \<rparr>)
                          else map_option (\<lambda>n. n\<lparr> distanceToNest := \<infinity> \<rparr>) (nodes gr v))" for v
    using nT by (simp add: g2_def seed_target_def reset_distances_def)
  have d2: "dist_of g2 v = (if v = T then 0 else \<infinity>)" for v
    by (simp add: dist_of_def n2 split: option.splits)
  have sh: "same_shape gr g2"
    unfolding same_shape_def
  proof (intro conjI allI)
    fix v
    show "case nodes gr v of None \<Rightarrow> nodes g2 v = None
          | Some n \<Rightarrow> \<exists>d. nodes g2 v = Some (n\<lparr> distanceToNest := d \<rparr>)"
      using nT by (cases "nodes gr v") (auto simp: n2)
  qed (simp_all add: g2_def seed_target_def reset_distances_def nT)
  have h: "hops gr T 0 T" using assms by (rule hops_target)
  have c3: "\<forall>v d. dist_of g2 v = enat d \<longrightarrow> hops gr T d v"
    using h by (auto simp: d2 zero_enat_def split: if_splits)
  have c4: "\<forall>v. (dist_of g2 v \<noteq> \<infinity>) = (v \<in> {} \<union> set [T])"
    by (auto simp: d2 zero_enat_def)
  have "bfs_inv gr T g2 [T] {}"
    unfolding bfs_inv_def using sh c3 c4 by (simp add: d2)
  then show ?thesis by (simp add: g2_def)
qed

lemma bfs_final_upper:
  assumes "bfs_inv gr T gr' [] vis" "hops gr T m v"
  shows "dist_of gr' v \<le> enat m"
  using assms(2)
proof (induction rule: hops.induct)
  case hops_target
  with assms(1) show ?case unfolding bfs_inv_def by simp
next
  case (hops_step n u v)
  then have "dist_of gr' u \<noteq> \<infinity>" by (cases "dist_of gr' u") auto
  with assms(1) have "u \<in> vis" unfolding bfs_inv_def by simp
  with assms(1) hops_step.hyps(2) have "dist_of gr' v \<le> dist_of gr' u + 1"
    unfolding bfs_inv_def by blast
  also have "\<dots> \<le> enat n + 1" using hops_step.IH by (rule add_right_mono)
  also have "\<dots> = enat (Suc n)" by (simp add: one_enat_def)
  finally show ?case .
qed

lemma distance_dist_of:
  "nodes gr v \<noteq> None \<Longrightarrow> distance gr v = Some (dist_of gr v)"
  by (auto simp: distance_def dist_of_def)


lemma hop_path_hd: "hop_path gr p \<Longrightarrow> nodes gr (hd p) \<noteq> None"
  by (induction gr p rule: hop_path.induct) simp_all

text \<open>
  C1: on every graph as \<open>addNode\<close> and \<open>addEdge\<close> build them, and for every target
  \<open>T\<close> present in it, \<open>calculateDistances(T)\<close> returns, and after it the distance of
  \<open>T\<close> is 0, every node with a shortest hop path of length \<open>L\<close> to \<open>T\<close> has the
  distance \<open>L\<close>, and every node with no hop path to \<open>T\<close> has the distance
  \<open>Infinity\<close>; nothing but the distances has changed.
\<close>

theorem calculateDistances_shortest_hops:
  assumes wf: "wf_graph gr" and T: "nodes gr T \<noteq> None"
  shows "\<exists>gr'. calculateDistances gr T = Some (Inr gr')
       \<and> distance gr' T = Some 0
       \<and> (\<forall>N L. shortest_hops gr N T L \<longrightarrow> distance gr' N = Some (enat L))
       \<and> (\<forall>N. nodes gr N \<noteq> None \<and> \<not> connected gr N T \<longrightarrow> distance gr' N = Some \<infinity>)
       \<and> same_shape gr gr'"
proof -
  from distance_loop_total [OF wf refl bfs_init [OF T]] obtain gr' vis where
    r: "calculateDistances gr T = Some (Inr gr')" and inv: "bfs_inv gr T gr' [] vis"
    unfolding calculateDistances_def by blast
  from inv have sh: "same_shape gr gr'"
    and i2: "dist_of gr' T = 0"
    and i3: "\<forall>v d. dist_of gr' v = enat d \<longrightarrow> hops gr T d v"
    unfolding bfs_inv_def by blast+
  have ex: "nodes gr' v \<noteq> None" if "nodes gr v \<noteq> None" for v
    using same_shape_dom [OF sh, of v] that by simp
  have c1: "distance gr' T = Some 0"
    using distance_dist_of [OF ex [OF T]] i2 by simp
  have c2: "distance gr' N = Some (enat L)" if s: "shortest_hops gr N T L" for N L
  proof -
    from s obtain p where p: "path_between gr N T p" "length p = Suc L"
      and mn: "\<forall>p. path_between gr N T p \<longrightarrow> Suc L \<le> length p"
      unfolding shortest_hops_def by blast
    from p have hp: "hop_path gr p" "hd p = N" "last p = T"
      by (simp_all add: path_between_def)
    from path_hops [OF hp(1) wf] hp(2,3) p(2) have h: "hops gr T L N" by simp
    from bfs_final_upper [OF inv h] obtain d where d: "dist_of gr' N = enat d" "d \<le> L"
      by (cases "dist_of gr' N") auto
    from i3 d(1) have "hops gr T d N" by blast
    from hops_path [OF wf this] obtain p' where
      "hop_path gr p'" "hd p' = N" "last p' = T" "length p' = Suc d"
      by blast
    with mn have "L \<le> d" by (auto simp: path_between_def)
    with d have dl: "dist_of gr' N = enat L" by simp
    from hop_path_hd [OF hp(1)] hp(2) have "nodes gr N \<noteq> None" by simp
    from distance_dist_of [OF ex [OF this]] dl show ?thesis by simp
  qed
  have c3: "distance gr' N = Some \<infinity>" if n: "nodes gr N \<noteq> None" "\<not> connected gr N T" for N
  proof -
    have "dist_of gr' N = \<infinity>"
    proof (cases "dist_of gr' N")
      case (enat d)
      with i3 have "hops gr T d N" by blast
      from hops_path [OF wf this] n(2) show ?thesis
        by (auto simp: connected_def path_between_def)
    next
      case infinity
      then show ?thesis .
    qed
    with distance_dist_of [OF ex [OF n(1)]] show ?thesis by simp
  qed
  from r c1 c2 c3 sh show ?thesis by blast
qed

lemma graph_line_built: "built graph_line"
proof -
  have f: "built (with_edge a c gr)" if "built gr" for a c gr
  proof (cases "addEdge a c gr")
    case (Inl e)
    with that show ?thesis by (simp add: with_edge_def)
  next
    case (Inr r)
    then obtain ok gr' where "addEdge a c gr = Inr (ok, gr')" by (cases r) auto
    with built_addEdge [OF that this] show ?thesis by (simp add: with_edge_def)
  qed
  have n: "built (snd (addNode gen nd gr))" if "built gr" "nodes gr (fst (addNode gen nd gr)) = None"
    for gen nd gr
    using built_addNode [OF that(1) _ that(2)] by (cases "addNode gen nd gr") auto
  have 1: "built (snd (addNode ''g1'' (blank\<lparr> nd_id := Some ''s'' \<rparr>) new_graph))"
    by (rule n [OF built_new_graph]) (simp add: addNode_def Let_def new_graph_def)
  have 2: "built (snd (addNode ''g2'' (blank\<lparr> nd_id := Some ''m'' \<rparr>)
              (snd (addNode ''g1'' (blank\<lparr> nd_id := Some ''s'' \<rparr>) new_graph))))"
    by (rule n [OF 1])
      (simp add: addNode_def Let_def new_graph_def blank_def or_string_def)
  have 3: "built (snd (addNode ''g3'' (blank\<lparr> nd_id := Some ''e'' \<rparr>)
              (snd (addNode ''g2'' (blank\<lparr> nd_id := Some ''m'' \<rparr>)
              (snd (addNode ''g1'' (blank\<lparr> nd_id := Some ''s'' \<rparr>) new_graph))))))"
    by (rule n [OF 2])
      (simp add: addNode_def Let_def new_graph_def blank_def or_string_def)
  show ?thesis
    unfolding graph_line_def by (intro f 3)
qed

lemma graph_line_wf: "wf_graph graph_line"
  using graph_line_built by (simp add: built_def)

lemma graph_island_facts:
  "wf_graph graph_island"
  "nodes graph_island ''s'' \<noteq> None" "nodes graph_island ''m'' \<noteq> None"
  "nodes graph_island ''e'' \<noteq> None" "nodes graph_island ''i'' \<noteq> None"
  "edges graph_island ''s'' = Some [''m'']"
  "edges graph_island ''m'' = Some [''s'', ''e'']"
  "edges graph_island ''e'' = Some [''m'']"
  "edges graph_island ''i'' = Some []"
proof -
  have "nodes graph_line (fst (addNode ''g4'' (blank\<lparr> nd_id := Some ''i'' \<rparr>) graph_line)) = None"
    by (simp add: graph_line_def with_edge_def addNode_def addEdge_def push_edge_def hasEdge_def node_truthy_def adjacent_def
      Let_def blank_def new_graph_def or_string_def)
  from wf_addNode [OF graph_line_wf _ this] show "wf_graph graph_island"
    unfolding graph_island_def by (cases "addNode ''g4'' (blank\<lparr> nd_id := Some ''i'' \<rparr>) graph_line") auto
qed (simp_all add: graph_island_def graph_line_def with_edge_def addNode_def addEdge_def
      push_edge_def hasEdge_def node_truthy_def adjacent_def Let_def blank_def new_graph_def or_string_def)

lemma graph_island_shortest: "shortest_hops graph_island ''s'' ''e'' 2"
  unfolding shortest_hops_def
proof (intro conjI allI impI)
  have "path_between graph_island ''s'' ''e'' [''s'', ''m'', ''e''] \<and> length [''s'', ''m'', ''e''] = Suc 2"
    using graph_island_facts by (simp add: path_between_def adjacent_def)
  then show "\<exists>p. path_between graph_island ''s'' ''e'' p \<and> length p = Suc 2" by blast
next
  fix p
  assume a: "path_between graph_island ''s'' ''e'' p"
  show "Suc 2 \<le> length p"
  proof (cases p)
    case Nil
    with a show ?thesis by (simp add: path_between_def)
  next
    case c1: (Cons v1 p1)
    show ?thesis
    proof (cases p1)
      case Nil
      with c1 a show ?thesis by (auto simp: path_between_def)
    next
      case c2: (Cons v2 p2)
      show ?thesis
      proof (cases p2)
        case Nil
        with c1 c2 a graph_island_facts(6) show ?thesis
          by (auto simp: path_between_def adjacent_def)
      next
        case (Cons v3 p3)
        with c1 c2 show ?thesis by simp
      qed
    qed
  qed
qed

lemma graph_island_unreachable: "\<not> connected graph_island ''i'' ''e''"
  unfolding connected_def
proof
  assume "\<exists>p. path_between graph_island ''i'' ''e'' p"
  then obtain p where a: "path_between graph_island ''i'' ''e'' p" by blast
  show False
  proof (cases p)
    case Nil
    with a show ?thesis by (simp add: path_between_def)
  next
    case c1: (Cons v1 p1)
    show ?thesis
    proof (cases p1)
      case Nil
      with c1 a show ?thesis by (auto simp: path_between_def)
    next
      case (Cons v2 p2)
      with c1 a graph_island_facts(9) show ?thesis
        by (auto simp: path_between_def adjacent_def)
    qed
  qed
qed

theorem calculateDistances_shortest_hops_witness:
  "wf_graph graph_island \<and> nodes graph_island ''e'' \<noteq> None
   \<and> shortest_hops graph_island ''s'' ''e'' 2
   \<and> nodes graph_island ''i'' \<noteq> None \<and> \<not> connected graph_island ''i'' ''e''
   \<and> (\<exists>gr'. calculateDistances graph_island ''e'' = Some (Inr gr')
         \<and> distance gr' ''e'' = Some 0 \<and> distance gr' ''s'' = Some (enat 2)
         \<and> distance gr' ''i'' = Some \<infinity>)"
proof -
  from calculateDistances_shortest_hops [OF graph_island_facts(1,4)] obtain gr' where
    r: "calculateDistances graph_island ''e'' = Some (Inr gr')"
      "distance gr' ''e'' = Some 0"
      "\<forall>N L. shortest_hops graph_island N ''e'' L \<longrightarrow> distance gr' N = Some (enat L)"
      "\<forall>N. nodes graph_island N \<noteq> None \<and> \<not> connected graph_island N ''e'' \<longrightarrow> distance gr' N = Some \<infinity>"
    by blast
  from r(3) graph_island_shortest have s: "distance gr' ''s'' = Some (enat 2)" by blast
  from r(4) graph_island_facts(5) graph_island_unreachable have i: "distance gr' ''i'' = Some \<infinity>"
    by blast
  from graph_island_facts(1,4,5) graph_island_shortest graph_island_unreachable r(1,2) s i
  show ?thesis by blast
qed

end
